theory Spec2Isabelle
  imports Complex_Main
begin

section \<open>Thin-lens camera calculations (camera.py)\<close>

text \<open>
  The module computes derived optical quantities of a sensor and lens pairing. Its
  numbers are double-precision floats carried by the \<open>quantities\<close> package (a magnitude
  held in a numpy array, tagged with a dictionary from unit names to integer powers).

  Idealisation of the arithmetic, used throughout: a finite float is a real number and
  the four operations on finite floats are the operations of the reals (no rounding, no
  overflow, no signed zero); the special values \<open>inf\<close>, \<open>-inf\<close> and \<open>nan\<close> are kept, with
  the IEEE rules numpy follows (division by zero yields an infinity or \<open>nan\<close> and a
  warning, never an exception).
\<close>

subsection \<open>Float magnitudes\<close>

datatype pyfloat = Fin real | PInf | NInf | NaN

definition signed_inf :: "real \<Rightarrow> pyfloat" where
  "signed_inf x = (if 0 < x then PInf else if x < 0 then NInf else NaN)"

fun fneg :: "pyfloat \<Rightarrow> pyfloat" where
  "fneg (Fin a) = Fin (- a)"
| "fneg PInf = NInf"
| "fneg NInf = PInf"
| "fneg NaN = NaN"

fun fmul :: "pyfloat \<Rightarrow> pyfloat \<Rightarrow> pyfloat" where
  "fmul NaN y = NaN"
| "fmul x NaN = NaN"
| "fmul (Fin a) (Fin b) = Fin (a * b)"
| "fmul (Fin a) PInf = signed_inf a"
| "fmul (Fin a) NInf = signed_inf (- a)"
| "fmul PInf (Fin b) = signed_inf b"
| "fmul NInf (Fin b) = signed_inf (- b)"
| "fmul PInf PInf = PInf"
| "fmul PInf NInf = NInf"
| "fmul NInf PInf = NInf"
| "fmul NInf NInf = PInf"

fun fdiv :: "pyfloat \<Rightarrow> pyfloat \<Rightarrow> pyfloat" where
  "fdiv NaN y = NaN"
| "fdiv x NaN = NaN"
| "fdiv (Fin a) (Fin b) = (if b = 0 then signed_inf a else Fin (a / b))"
| "fdiv (Fin a) PInf = Fin 0"
| "fdiv (Fin a) NInf = Fin 0"
| "fdiv PInf (Fin b) = (if b < 0 then NInf else PInf)"
| "fdiv NInf (Fin b) = (if b < 0 then PInf else NInf)"
| "fdiv PInf PInf = NaN"
| "fdiv PInf NInf = NaN"
| "fdiv NInf PInf = NaN"
| "fdiv NInf NInf = NaN"

fun fadd :: "pyfloat \<Rightarrow> pyfloat \<Rightarrow> pyfloat" where
  "fadd NaN y = NaN"
| "fadd x NaN = NaN"
| "fadd (Fin a) (Fin b) = Fin (a + b)"
| "fadd (Fin a) PInf = PInf"
| "fadd (Fin a) NInf = NInf"
| "fadd PInf (Fin b) = PInf"
| "fadd NInf (Fin b) = NInf"
| "fadd PInf PInf = PInf"
| "fadd PInf NInf = NaN"
| "fadd NInf PInf = NaN"
| "fadd NInf NInf = NInf"

definition fsub :: "pyfloat \<Rightarrow> pyfloat \<Rightarrow> pyfloat" where
  "fsub x y = fadd x (fneg y)"

text \<open>Comparisons: every comparison with \<open>nan\<close> is false.\<close>

fun flt :: "pyfloat \<Rightarrow> pyfloat \<Rightarrow> bool" where
  "flt NaN y = False"
| "flt x NaN = False"
| "flt (Fin a) (Fin b) = (a < b)"
| "flt (Fin a) PInf = True"
| "flt (Fin a) NInf = False"
| "flt PInf y = False"
| "flt NInf (Fin b) = True"
| "flt NInf PInf = True"
| "flt NInf NInf = False"

definition fgt :: "pyfloat \<Rightarrow> pyfloat \<Rightarrow> bool" where
  "fgt x y = flt y x"

fun fle :: "pyfloat \<Rightarrow> pyfloat \<Rightarrow> bool" where
  "fle NaN y = False"
| "fle x NaN = False"
| "fle (Fin a) (Fin b) = (a \<le> b)"
| "fle (Fin a) PInf = True"
| "fle (Fin a) NInf = False"
| "fle PInf (Fin b) = False"
| "fle PInf PInf = True"
| "fle PInf NInf = False"
| "fle NInf y = True"

definition isfinite :: "pyfloat \<Rightarrow> bool" where
  "isfinite x = (case x of Fin a \<Rightarrow> True | _ \<Rightarrow> False)"

text \<open>\<open>numpy.hypot\<close>: an infinite argument gives \<open>inf\<close>, even beside a \<open>nan\<close>.\<close>

fun fhypot :: "pyfloat \<Rightarrow> pyfloat \<Rightarrow> pyfloat" where
  "fhypot (Fin a) (Fin b) = Fin (sqrt (a * a + b * b))"
| "fhypot PInf y = PInf"
| "fhypot NInf y = PInf"
| "fhypot x PInf = PInf"
| "fhypot x NInf = PInf"
| "fhypot NaN y = NaN"
| "fhypot x NaN = NaN"

text \<open>
  \<open>numpy.arctan2 y x\<close>: the angle of the point \<open>(x, y)\<close>, in \<open>(-pi, pi]\<close>, with the
  C library's values at the infinities.
\<close>

definition atan2 :: "real \<Rightarrow> real \<Rightarrow> real" where
  "atan2 y x =
     (if 0 < x then arctan (y / x)
      else if x < 0 then (if 0 \<le> y then arctan (y / x) + pi else arctan (y / x) - pi)
      else if 0 < y then pi / 2
      else if y < 0 then - (pi / 2)
      else 0)"

fun farctan2 :: "pyfloat \<Rightarrow> pyfloat \<Rightarrow> pyfloat" where
  "farctan2 NaN x = NaN"
| "farctan2 y NaN = NaN"
| "farctan2 (Fin y) (Fin x) = Fin (atan2 y x)"
| "farctan2 (Fin y) PInf = Fin 0"
| "farctan2 (Fin y) NInf = (if 0 \<le> y then Fin pi else Fin (- pi))"
| "farctan2 PInf (Fin x) = Fin (pi / 2)"
| "farctan2 NInf (Fin x) = Fin (- (pi / 2))"
| "farctan2 PInf PInf = Fin (pi / 4)"
| "farctan2 PInf NInf = Fin (3 * pi / 4)"
| "farctan2 NInf PInf = Fin (- (pi / 4))"
| "farctan2 NInf NInf = Fin (- (3 * pi / 4))"

subsection \<open>Units and quantities (the \<open>quantities\<close> package)\<close>

text \<open>
  The units the module and its callers name: \<open>pq.m\<close> (\<open>pq.meter\<close>), \<open>pq.mm\<close>,
  \<open>pq.micron\<close>, \<open>pq.radian\<close>, \<open>pq.degrees\<close>. A dimensionality maps each unit to its
  power; a unit that is absent from the package's dictionary has power 0.
\<close>

datatype pq_unit = meter | mm | micron | radian | degrees

type_synonym dimensionality = "pq_unit \<Rightarrow> int"

definition dimensionless :: dimensionality where
  "dimensionless = (\<lambda>u. 0)"

definition unit_dim :: "pq_unit \<Rightarrow> dimensionality" where
  "unit_dim u = (\<lambda>v. if v = u then 1 else 0)"

definition dim_mul :: "dimensionality \<Rightarrow> dimensionality \<Rightarrow> dimensionality" where
  "dim_mul d e = (\<lambda>u. d u + e u)"

definition dim_div :: "dimensionality \<Rightarrow> dimensionality \<Rightarrow> dimensionality" where
  "dim_div d e = (\<lambda>u. d u - e u)"

definition dim_eq :: "dimensionality \<Rightarrow> dimensionality \<Rightarrow> bool" where
  "dim_eq d e =
     (d meter = e meter \<and> d mm = e mm \<and> d micron = e micron \<and>
      d radian = e radian \<and> d degrees = e degrees)"

text \<open>
  Each unit's reference: its size in SI base units and the power of the metre there.
  Angles are dimensionless in SI.
\<close>

fun factor :: "pq_unit \<Rightarrow> real" where
  "factor meter = 1"
| "factor mm = 1 / 1000"
| "factor micron = 1 / 1000000"
| "factor radian = 1"
| "factor degrees = pi / 180"

fun metres :: "pq_unit \<Rightarrow> int" where
  "metres meter = 1"
| "metres mm = 1"
| "metres micron = 1"
| "metres radian = 0"
| "metres degrees = 0"

definition scale :: "dimensionality \<Rightarrow> real" where
  "scale d =
     power_int (factor meter) (d meter) * power_int (factor mm) (d mm) *
     power_int (factor micron) (d micron) * power_int (factor radian) (d radian) *
     power_int (factor degrees) (d degrees)"

definition lendim :: "dimensionality \<Rightarrow> int" where
  "lendim d =
     d meter * metres meter + d mm * metres mm + d micron * metres micron +
     d radian * metres radian + d degrees * metres degrees"

record quantity =
  magnitude :: pyfloat
  units :: dimensionality

datatype error = NameError string | AssertionError | ValueError

definition and_then :: "error + 'a \<Rightarrow> ('a \<Rightarrow> error + 'b) \<Rightarrow> error + 'b" where
  "and_then r k = (case r of Inl e \<Rightarrow> Inl e | Inr v \<Rightarrow> k v)"

text \<open>\<open>a * b\<close> and \<open>a / b\<close> of two quantities: the powers add or subtract.\<close>

definition qmul :: "quantity \<Rightarrow> quantity \<Rightarrow> quantity" where
  "qmul a b =
     \<lparr>magnitude = fmul (magnitude a) (magnitude b), units = dim_mul (units a) (units b)\<rparr>"

definition qdiv :: "quantity \<Rightarrow> quantity \<Rightarrow> quantity" where
  "qdiv a b =
     \<lparr>magnitude = fdiv (magnitude a) (magnitude b), units = dim_div (units a) (units b)\<rparr>"

text \<open>A plain number times a quantity, and a quantity times a plain number.\<close>

definition smul :: "pyfloat \<Rightarrow> quantity \<Rightarrow> quantity" where
  "smul x a = \<lparr>magnitude = fmul x (magnitude a), units = units a\<rparr>"

definition muls :: "quantity \<Rightarrow> pyfloat \<Rightarrow> quantity" where
  "muls a x = \<lparr>magnitude = fmul (magnitude a) x, units = units a\<rparr>"

text \<open>A quantity divided by a plain number.\<close>

definition divs :: "quantity \<Rightarrow> pyfloat \<Rightarrow> quantity" where
  "divs a x = \<lparr>magnitude = fdiv (magnitude a) x, units = units a\<rparr>"

text \<open>
  \<open>q.rescale(u)\<close>: the same quantity in other units; \<open>ValueError\<close> when the two
  dimensionalities do not reduce to the same SI dimension.
\<close>

definition rescale :: "quantity \<Rightarrow> dimensionality \<Rightarrow> error + quantity" where
  "rescale q d =
     (if dim_eq (units q) d then Inr q
      else if lendim (units q) = lendim d
      then Inr \<lparr>magnitude = fmul (Fin (scale (units q) / scale d)) (magnitude q), units = d\<rparr>
      else Inl ValueError)"

text \<open>\<open>q.simplified\<close>: the quantity in SI base units.\<close>

definition simplified :: "quantity \<Rightarrow> quantity" where
  "simplified q =
     \<lparr>magnitude = fmul (magnitude q) (Fin (scale (units q))),
      units = (\<lambda>u. if u = meter then lendim (units q) else 0)\<rparr>"

text \<open>
  \<open>a + b\<close> and \<open>a - b\<close>: the right operand is first rescaled to the units of the left
  one when the dimensionalities differ.
\<close>

definition qadd :: "quantity \<Rightarrow> quantity \<Rightarrow> error + quantity" where
  "qadd a b =
     and_then (rescale b (units a))
       (\<lambda>b'. Inr \<lparr>magnitude = fadd (magnitude a) (magnitude b'), units = units a\<rparr>)"

definition qsub :: "quantity \<Rightarrow> quantity \<Rightarrow> error + quantity" where
  "qsub a b =
     and_then (rescale b (units a))
       (\<lambda>b'. Inr \<lparr>magnitude = fsub (magnitude a) (magnitude b'), units = units a\<rparr>)"

text \<open>
  Ordering two quantities: both are simplified and must then have the same units
  (\<open>ValueError\<close> otherwise). Ordering a quantity against a plain number compares the
  magnitude.
\<close>

definition qgt :: "quantity \<Rightarrow> quantity \<Rightarrow> error + bool" where
  "qgt a b =
     (if dim_eq (units (simplified a)) (units (simplified b))
      then Inr (fgt (magnitude (simplified a)) (magnitude (simplified b)))
      else Inl ValueError)"

definition qlt :: "quantity \<Rightarrow> quantity \<Rightarrow> error + bool" where
  "qlt a b =
     (if dim_eq (units (simplified a)) (units (simplified b))
      then Inr (flt (magnitude (simplified a)) (magnitude (simplified b)))
      else Inl ValueError)"

definition qle :: "quantity \<Rightarrow> quantity \<Rightarrow> error + bool" where
  "qle a b =
     (if dim_eq (units (simplified a)) (units (simplified b))
      then Inr (fle (magnitude (simplified a)) (magnitude (simplified b)))
      else Inl ValueError)"

definition qgt_number :: "quantity \<Rightarrow> pyfloat \<Rightarrow> bool" where
  "qgt_number a x = fgt (magnitude a) x"

text \<open>
  \<open>numpy.hypot\<close> and \<open>numpy.arctan2\<close> on quantities want identical dimensionalities;
  the hypotenuse keeps them, the arc tangent is dimensionless.
\<close>

definition qhypot :: "quantity \<Rightarrow> quantity \<Rightarrow> error + quantity" where
  "qhypot a b =
     (if dim_eq (units a) (units b)
      then Inr \<lparr>magnitude = fhypot (magnitude a) (magnitude b), units = units a\<rparr>
      else Inl ValueError)"

definition qarctan2 :: "quantity \<Rightarrow> quantity \<Rightarrow> error + quantity" where
  "qarctan2 a b =
     (if dim_eq (units a) (units b)
      then Inr \<lparr>magnitude = farctan2 (magnitude a) (magnitude b), units = dimensionless\<rparr>
      else Inl ValueError)"

text \<open>A unit used as a value (\<open>pq.mm\<close>, \<open>pq.radian\<close>) is the quantity 1 of that unit.\<close>

definition unit_quantity :: "pq_unit \<Rightarrow> quantity" where
  "unit_quantity u = \<lparr>magnitude = Fin 1, units = unit_dim u\<rparr>"

subsection \<open>Sensor\<close>

text \<open>
  The attrs classes become records. Their fields default to \<open>None\<close> in the source; the
  model covers objects whose fields hold values of the annotated types.
\<close>

record Sensor =
  name :: string
  pixel_pitch :: quantity
  width_pixels :: int
  height_pixels :: int
  cfa :: string

definition sensor_width :: "Sensor \<Rightarrow> quantity" where
  "sensor_width s = muls (pixel_pitch s) (Fin (of_int (width_pixels s)))"

definition sensor_height :: "Sensor \<Rightarrow> quantity" where
  "sensor_height s = muls (pixel_pitch s) (Fin (of_int (height_pixels s)))"

definition sensor_diagonal :: "Sensor \<Rightarrow> error + quantity" where
  "sensor_diagonal s = qhypot (sensor_height s) (sensor_width s)"

text \<open>
  The \<open>else\<close> branch is \<open>raise Error('Unknown cfa \'%s\'', self.cfa)\<close>. The module neither
  defines nor imports a name \<open>Error\<close>, so evaluating the operand of \<open>raise\<close> raises
  \<open>NameError: name 'Error' is not defined\<close> before any exception object is built.
\<close>

definition circle_of_confusion_diameter :: "Sensor \<Rightarrow> error + quantity" where
  "circle_of_confusion_diameter s =
     (if cfa s = ''bayer'' then Inr (smul (Fin (225 / 100)) (pixel_pitch s))
      else Inl (NameError ''Error''))"

subsection \<open>Lens\<close>

record Lens =
  name :: string
  focal_length :: quantity
  aperture_diameter :: quantity
  projection :: string

definition f_number :: "Lens \<Rightarrow> quantity" where
  "f_number l = qdiv (focal_length l) (aperture_diameter l)"

text \<open>
  The source's \<open>_GetAngleOfView\<close> (an Isabelle name cannot begin with an underscore).
  Its last branch raises through the undefined name \<open>Error\<close> as well.
\<close>

definition GetAngleOfView :: "Lens \<Rightarrow> quantity \<Rightarrow> error + quantity" where
  "GetAngleOfView l focal_plane_length =
     (if projection l = ''rectilinear'' then
        and_then (rescale (focal_length l) (units focal_plane_length)) (\<lambda>f.
        and_then (qarctan2 focal_plane_length (smul (Fin 2) f)) (\<lambda>a.
        Inr (qmul (smul (Fin 2) a) (unit_quantity radian))))
      else if projection l = ''equidistant'' then
        Inr (qmul (simplified (qdiv focal_plane_length (focal_length l)))
               (unit_quantity radian))
      else Inl (NameError ''Error''))"

subsection \<open>Camera\<close>

record Camera =
  name :: string
  sensor :: Sensor
  lens :: Lens

definition GetAnglesOfView :: "Camera \<Rightarrow> error + (quantity \<times> quantity)" where
  "GetAnglesOfView c =
     and_then (GetAngleOfView (lens c) (sensor_width (sensor c))) (\<lambda>w.
     and_then (GetAngleOfView (lens c) (sensor_height (sensor c))) (\<lambda>h.
     Inr (w, h)))"

definition GetHyperfocalDistance :: "Camera \<Rightarrow> error + quantity" where
  "GetHyperfocalDistance c =
     (let focal_length = Lens.focal_length (lens c);
          focal_length_squared = qmul focal_length focal_length
      in and_then (circle_of_confusion_diameter (sensor c)) (\<lambda>coc_diameter.
         and_then (qadd (qdiv focal_length_squared (qmul (f_number (lens c)) coc_diameter))
                     focal_length) (\<lambda>hyperfocal_distance.
         rescale hyperfocal_distance (unit_dim meter))))"

text \<open>
  \<open>assert focus_distance > self.lens.focal_length\<close> comes before the circle of
  confusion is read; the far limit of a subject at or past the sharpness limit is
  \<open>INF * pq.m\<close>.
\<close>

definition GetDepthOfField :: "Camera \<Rightarrow> quantity \<Rightarrow> error + (quantity \<times> quantity)" where
  "GetDepthOfField c focus_distance =
     (let focal_length = Lens.focal_length (lens c);
          focal_length_squared = qmul focal_length focal_length
      in and_then (qgt focus_distance (Lens.focal_length (lens c))) (\<lambda>ok.
         if \<not> ok then Inl AssertionError else
         and_then (circle_of_confusion_diameter (sensor c)) (\<lambda>coc_diameter.
         and_then (qadd focal_length_squared
                     (qmul (qmul (f_number (lens c)) coc_diameter) focus_distance)) (\<lambda>nd.
         let near = qdiv (qmul focus_distance focal_length_squared) nd in
         and_then (qsub focal_length_squared
                     (qmul (qmul (f_number (lens c)) coc_diameter) focus_distance)) (\<lambda>sd.
         let far = (if qgt_number sd (Fin 0)
                    then qdiv (qmul focus_distance focal_length_squared) sd
                    else smul PInf (unit_quantity meter))
         in Inr (near, far))))))"

definition Get35mmEquivalentFocalLength :: "Camera \<Rightarrow> error + quantity" where
  "Get35mmEquivalentFocalLength c =
     and_then (sensor_diagonal (sensor c)) (\<lambda>diagonal.
     let crop_factor = qdiv (smul (Fin (4327 / 100)) (unit_quantity mm)) diagonal
     in rescale (qmul crop_factor (focal_length (lens c))) (unit_dim mm))"

subsection \<open>The objects of camera\_test.py\<close>

text \<open>
  \<open>test_camera_rectilinear\<close> builds a sensor of 4000 by 3000 pixels of 5 micron and
  a lens of 10 mm at f/2 (\<open>aperture_diameter = focal_length / f_number\<close>);
  \<open>test_camera_equidistant\<close> differs in the projection only.
\<close>

definition test_sensor :: Sensor where
  "test_sensor =
     \<lparr>Sensor.name = ''s'', pixel_pitch = smul (Fin 5) (unit_quantity micron),
      width_pixels = 4000, height_pixels = 3000, cfa = ''bayer''\<rparr>"

definition test_lens :: "string \<Rightarrow> Lens" where
  "test_lens proj =
     \<lparr>Lens.name = ''l'', focal_length = smul (Fin 10) (unit_quantity mm),
      aperture_diameter = divs (smul (Fin 10) (unit_quantity mm)) (Fin 2),
      projection = proj\<rparr>"

definition test_camera :: "string \<Rightarrow> Camera" where
  "test_camera proj = \<lparr>Camera.name = ''c'', sensor = test_sensor, lens = test_lens proj\<rparr>"

section \<open>Units: scale factors and dimensions\<close>

lemma factor_pos: "0 < factor u"
  by (cases u) simp_all

lemma scale_pos: "0 < scale d"
  unfolding scale_def
  by (intro mult_pos_pos zero_less_power_int factor_pos)

lemma scale_nonzero: "scale d \<noteq> 0"
  using scale_pos [of d] by simp

lemma scale_dim_mul: "scale (dim_mul d e) = scale d * scale e"
  unfolding scale_def dim_mul_def
  by (simp add: power_int_add)

lemma scale_dim_div: "scale (dim_div d e) = scale d / scale e"
  unfolding scale_def dim_div_def
  by (simp add: power_int_diff)

lemma scale_unit_dim: "scale (unit_dim u) = factor u"
  unfolding scale_def unit_dim_def
  by (cases u) simp_all

lemma scale_dimensionless: "scale dimensionless = 1"
  unfolding scale_def dimensionless_def by simp

lemma lendim_dim_mul: "lendim (dim_mul d e) = lendim d + lendim e"
  unfolding lendim_def dim_mul_def by (simp add: algebra_simps)

lemma lendim_dim_div: "lendim (dim_div d e) = lendim d - lendim e"
  unfolding lendim_def dim_div_def by (simp add: algebra_simps)

lemma lendim_unit_dim: "lendim (unit_dim u) = metres u"
  unfolding lendim_def unit_dim_def by (cases u) simp_all

lemma dim_eq_iff: "dim_eq d e \<longleftrightarrow> d = e"
proof
  assume h: "dim_eq d e"
  show "d = e"
  proof
    fix u show "d u = e u" using h by (cases u) (simp_all add: dim_eq_def)
  qed
next
  assume "d = e" then show "dim_eq d e" by (simp add: dim_eq_def)
qed

text \<open>The quantity operations on finite magnitudes of compatible dimension.\<close>

lemma rescale_Fin:
  assumes "lendim u = lendim d"
  shows "rescale \<lparr>magnitude = Fin m, units = u\<rparr> d =
         Inr \<lparr>magnitude = Fin (m * scale u / scale d), units = d\<rparr>"
  using assms scale_nonzero [of d]
  by (auto simp: rescale_def dim_eq_iff)

lemma qadd_Fin:
  assumes "lendim ub = lendim ua"
  shows "qadd \<lparr>magnitude = Fin a, units = ua\<rparr> \<lparr>magnitude = Fin b, units = ub\<rparr> =
         Inr \<lparr>magnitude = Fin (a + b * (scale ub / scale ua)), units = ua\<rparr>"
  using assms by (simp add: qadd_def rescale_Fin and_then_def)

lemma qsub_Fin:
  assumes "lendim ub = lendim ua"
  shows "qsub \<lparr>magnitude = Fin a, units = ua\<rparr> \<lparr>magnitude = Fin b, units = ub\<rparr> =
         Inr \<lparr>magnitude = Fin (a - b * (scale ub / scale ua)), units = ua\<rparr>"
  using assms by (simp add: qsub_def rescale_Fin and_then_def fsub_def)

section \<open>The computations on finite magnitudes\<close>

lemma dim_cancel: "dim_div (dim_mul us d) d = us"
  by (rule ext) (simp add: dim_div_def dim_mul_def)

lemma circle_of_confusion_diameter_bayer:
  assumes "pixel_pitch s = \<lparr>magnitude = Fin p, units = up\<rparr>" and "cfa s = ''bayer''"
  shows "circle_of_confusion_diameter s = Inr \<lparr>magnitude = Fin (225 / 100 * p), units = up\<rparr>"
  using assms by (simp add: circle_of_confusion_diameter_def smul_def)

lemma f_number_Fin:
  assumes "focal_length l = \<lparr>magnitude = Fin f, units = uf\<rparr>"
    and "aperture_diameter l = \<lparr>magnitude = Fin a, units = ua\<rparr>" and "a \<noteq> 0"
  shows "f_number l = \<lparr>magnitude = Fin (f / a), units = dim_div uf ua\<rparr>"
  using assms by (simp add: f_number_def qdiv_def)

lemma qgt_Fin:
  assumes "lendim ua = lendim ub"
  shows "qgt \<lparr>magnitude = Fin a, units = ua\<rparr> \<lparr>magnitude = Fin b, units = ub\<rparr> =
         Inr (b * scale ub < a * scale ua)"
  using assms by (simp add: qgt_def simplified_def dim_eq_def fgt_def)

lemma qlt_Fin:
  assumes "lendim ua = lendim ub"
  shows "qlt \<lparr>magnitude = Fin a, units = ua\<rparr> \<lparr>magnitude = Fin b, units = ub\<rparr> =
         Inr (a * scale ua < b * scale ub)"
  using assms by (simp add: qlt_def simplified_def dim_eq_def)

text \<open>The depth of field as the code computes it, magnitudes in the operands' own units.\<close>

lemma GetDepthOfField_Fin:
  assumes fl: "focal_length (lens c) = \<lparr>magnitude = Fin f, units = uf\<rparr>"
    and ad: "aperture_diameter (lens c) = \<lparr>magnitude = Fin a, units = ua\<rparr>"
    and pp: "pixel_pitch (sensor c) = \<lparr>magnitude = Fin p, units = up\<rparr>"
    and bayer: "cfa (sensor c) = ''bayer''"
    and pos: "0 < f" "0 < a" "0 < p"
    and dims: "lendim uf = 1" "lendim ua = 1" "lendim up = 1" "lendim us = 1"
    and gt: "f * scale uf < s * scale us"
  shows "GetDepthOfField c \<lparr>magnitude = Fin s, units = us\<rparr> =
         Inr (\<lparr>magnitude = Fin (s * (f * f) /
                 (f * f + f / a * (225 / 100 * p) * s *
                    (scale up * scale us / (scale ua * scale uf)))),
               units = us\<rparr>,
              if 0 < f * f - f / a * (225 / 100 * p) * s *
                    (scale up * scale us / (scale ua * scale uf))
              then \<lparr>magnitude = Fin (s * (f * f) /
                 (f * f - f / a * (225 / 100 * p) * s *
                    (scale up * scale us / (scale ua * scale uf)))),
               units = us\<rparr>
              else \<lparr>magnitude = PInf, units = unit_dim meter\<rparr>)"
proof -
  let ?k = "scale up * scale us / (scale ua * scale uf)"
  let ?ncs = "f / a * (225 / 100 * p) * s"
  have sc: "0 < scale uf" "0 < scale ua" "0 < scale up" "0 < scale us"
    by (rule scale_pos)+
  have k: "0 < ?k" using sc by simp
  have ncs: "0 < ?ncs"
  proof -
    have "0 < f * scale uf" using pos sc by simp
    then have "0 < s * scale us" using gt by linarith
    then have "0 < s" using sc by (simp add: zero_less_mult_iff)
    then show ?thesis using pos by simp
  qed
  have den: "f * f + ?ncs * ?k \<noteq> 0"
  proof -
    have "0 < f * f" using pos by simp
    moreover have "0 < ?ncs * ?k" using ncs k by (rule mult_pos_pos)
    ultimately show ?thesis by linarith
  qed
  have coc: "circle_of_confusion_diameter (sensor c) =
             Inr \<lparr>magnitude = Fin (225 / 100 * p), units = up\<rparr>"
    using pp bayer by (rule circle_of_confusion_diameter_bayer)
  have fn: "f_number (lens c) = \<lparr>magnitude = Fin (f / a), units = dim_div uf ua\<rparr>"
    using fl ad pos by (simp add: f_number_Fin)
  have ncsq: "qmul (qmul (f_number (lens c)) \<lparr>magnitude = Fin (225 / 100 * p), units = up\<rparr>)
                \<lparr>magnitude = Fin s, units = us\<rparr> =
              \<lparr>magnitude = Fin ?ncs, units = dim_mul (dim_mul (dim_div uf ua) up) us\<rparr>"
    by (simp add: fn qmul_def)
  have sk: "scale (dim_mul (dim_mul (dim_div uf ua) up) us) / scale (dim_mul uf uf) = ?k"
    using sc by (simp add: scale_dim_mul scale_dim_div field_simps)
  have ld: "lendim (dim_mul (dim_mul (dim_div uf ua) up) us) = lendim (dim_mul uf uf)"
    using dims by (simp add: lendim_dim_mul lendim_dim_div)
  have nd: "qadd \<lparr>magnitude = Fin (f * f), units = dim_mul uf uf\<rparr>
               \<lparr>magnitude = Fin ?ncs, units = dim_mul (dim_mul (dim_div uf ua) up) us\<rparr> =
            Inr \<lparr>magnitude = Fin (f * f + ?ncs * ?k), units = dim_mul uf uf\<rparr>"
    by (simp only: qadd_Fin [OF ld] sk)
  have sd: "qsub \<lparr>magnitude = Fin (f * f), units = dim_mul uf uf\<rparr>
               \<lparr>magnitude = Fin ?ncs, units = dim_mul (dim_mul (dim_div uf ua) up) us\<rparr> =
            Inr \<lparr>magnitude = Fin (f * f - ?ncs * ?k), units = dim_mul uf uf\<rparr>"
    by (simp only: qsub_Fin [OF ld] sk)
  have ok: "qgt \<lparr>magnitude = Fin s, units = us\<rparr> (focal_length (lens c)) = Inr True"
    using gt dims by (simp add: fl qgt_Fin)
  have f2: "qmul (focal_length (lens c)) (focal_length (lens c)) =
            \<lparr>magnitude = Fin (f * f), units = dim_mul uf uf\<rparr>"
    by (simp add: fl qmul_def)
  show ?thesis
    apply (simp only: GetDepthOfField_def Let_def fl [symmetric])
    apply (simp only: ok f2 coc ncsq nd sd and_then_def sum.case simp_thms if_False)
    using den
    apply (simp add: qdiv_def qmul_def qgt_number_def fgt_def smul_def unit_quantity_def
        dim_cancel signed_inf_def)
    done
qed

lemma metric_form:
  fixes f a p s su sa sp ss :: real
  assumes "0 < su" "0 < sa" "0 < sp" "0 < ss" "0 < a"
  shows "f * su * (f * su) + f * su / (a * sa) * (225 / 100 * (p * sp)) * (s * ss) =
         su * su * (f * f + f / a * (225 / 100 * p) * s * (sp * ss / (sa * su)))"
    and "f * su * (f * su) - f * su / (a * sa) * (225 / 100 * (p * sp)) * (s * ss) =
         su * su * (f * f - f / a * (225 / 100 * p) * s * (sp * ss / (sa * su)))"
  using assms by (simp_all add: field_simps)

lemma test_camera_fields:
  "focal_length (lens (test_camera pr)) = \<lparr>magnitude = Fin 10, units = unit_dim mm\<rparr>"
  "aperture_diameter (lens (test_camera pr)) = \<lparr>magnitude = Fin 5, units = unit_dim mm\<rparr>"
  "pixel_pitch (sensor (test_camera pr)) = \<lparr>magnitude = Fin 5, units = unit_dim micron\<rparr>"
  "cfa (sensor (test_camera pr)) = ''bayer''"
  "width_pixels (sensor (test_camera pr)) = 4000"
  "height_pixels (sensor (test_camera pr)) = 3000"
  "projection (lens (test_camera pr)) = pr"
  by (simp_all add: test_camera_def test_lens_def test_sensor_def smul_def divs_def
      unit_quantity_def)

lemma GetHyperfocalDistance_Fin:
  assumes fl: "focal_length (lens c) = \<lparr>magnitude = Fin f, units = uf\<rparr>"
    and ad: "aperture_diameter (lens c) = \<lparr>magnitude = Fin a, units = ua\<rparr>"
    and pp: "pixel_pitch (sensor c) = \<lparr>magnitude = Fin p, units = up\<rparr>"
    and bayer: "cfa (sensor c) = ''bayer''"
    and pos: "0 < f" "0 < a" "0 < p"
    and dims: "lendim uf = 1" "lendim ua = 1" "lendim up = 1"
  shows "GetHyperfocalDistance c =
         Inr \<lparr>magnitude = Fin (f * scale uf * (f * scale uf) /
                  (f * scale uf / (a * scale ua) * (225 / 100 * (p * scale up))) +
                  f * scale uf),
              units = unit_dim meter\<rparr>"
proof -
  have sc: "0 < scale uf" "0 < scale ua" "0 < scale up"
    by (rule scale_pos)+
  have coc: "circle_of_confusion_diameter (sensor c) =
             Inr \<lparr>magnitude = Fin (225 / 100 * p), units = up\<rparr>"
    using pp bayer by (rule circle_of_confusion_diameter_bayer)
  have fn: "f_number (lens c) = \<lparr>magnitude = Fin (f / a), units = dim_div uf ua\<rparr>"
    using fl ad pos by (simp add: f_number_Fin)
  show ?thesis
    using fl pos dims sc
    apply (simp add: GetHyperfocalDistance_def Let_def coc fn and_then_def qmul_def qdiv_def)
    apply (simp add: qadd_Fin rescale_Fin lendim_dim_mul lendim_dim_div lendim_unit_dim
        scale_dim_mul scale_dim_div scale_unit_dim)
    apply (simp add: field_simps)
    done
qed

lemma hyperfocal_real:
  fixes F K :: real
  assumes "0 < F" and "0 < K"
  shows "F < F * F / K + F" and "F * F - K * (F * F / K + F) = - (K * F)"
  using assms by (simp_all add: field_simps)

lemma far_at_hyperfocal:
  assumes fl: "focal_length (lens c) = \<lparr>magnitude = Fin f, units = uf\<rparr>"
    and ad: "aperture_diameter (lens c) = \<lparr>magnitude = Fin a, units = ua\<rparr>"
    and pp: "pixel_pitch (sensor c) = \<lparr>magnitude = Fin p, units = up\<rparr>"
    and bayer: "cfa (sensor c) = ''bayer''"
    and pos: "0 < f" "0 < a" "0 < p"
    and dims: "lendim uf = 1" "lendim ua = 1" "lendim up = 1"
  shows "\<exists>H near. GetHyperfocalDistance c = Inr H \<and>
           GetDepthOfField c H = Inr (near, \<lparr>magnitude = PInf, units = unit_dim meter\<rparr>)"
proof -
  let ?F = "f * scale uf"
  let ?NC = "?F / (a * scale ua) * (225 / 100 * (p * scale up))"
  let ?h = "?F * ?F / ?NC + ?F"
  have sc: "0 < scale uf" "0 < scale ua" "0 < scale up" "0 < scale (unit_dim meter)"
    by (rule scale_pos)+
  have F: "0 < ?F" using pos sc by simp
  have NC: "0 < ?NC" using pos sc by simp
  have hyp: "GetHyperfocalDistance c = Inr \<lparr>magnitude = Fin ?h, units = unit_dim meter\<rparr>"
    using assms by (rule GetHyperfocalDistance_Fin)
  have gt: "f * scale uf < ?h * scale (unit_dim meter)"
    using hyperfocal_real(1) [OF F NC] by (simp only: scale_unit_dim factor.simps mult_1_right)
  have ld: "lendim (unit_dim meter) = 1" by (simp add: lendim_unit_dim)
  note dof = GetDepthOfField_Fin [OF fl ad pp bayer pos dims ld gt]
  note mf = metric_form(2) [OF sc(1) sc(2) sc(3) sc(4) pos(2), of f p ?h]
  have "?F * ?F - ?NC * (?h * scale (unit_dim meter)) = - (?NC * ?F)"
    using hyperfocal_real(2) [OF F NC] by (simp only: scale_unit_dim factor.simps mult_1_right)
  also have "\<dots> < 0" using mult_pos_pos [OF NC F] by linarith
  finally have neg: "scale uf * scale uf *
      (f * f - f / a * (225 / 100 * p) * ?h *
         (scale up * scale (unit_dim meter) / (scale ua * scale uf))) < 0"
    unfolding mf .
  have "\<not> 0 < f * f - f / a * (225 / 100 * p) * ?h *
         (scale up * scale (unit_dim meter) / (scale ua * scale uf))"
  proof
    assume "0 < f * f - f / a * (225 / 100 * p) * ?h *
         (scale up * scale (unit_dim meter) / (scale ua * scale uf))"
    then have "0 < scale uf * scale uf *
      (f * f - f / a * (225 / 100 * p) * ?h *
         (scale up * scale (unit_dim meter) / (scale ua * scale uf)))"
      using sc(1) by (intro mult_pos_pos)
    with neg show False by linarith
  qed
  then show ?thesis
    using dof hyp by (simp only: if_False) blast
qed

lemma dof_real:
  fixes s q X :: real
  assumes "0 < s" and "0 < q" and "0 < X"
  shows "0 < s * q / (q + X)" and "s * q / (q + X) < s"
    and "0 < q - X \<Longrightarrow> s < s * q / (q - X)"
  using assms by (simp_all add: field_simps)

lemma fle_not_flt: "fle x y \<Longrightarrow> \<not> flt y x"
  by (cases x; cases y) simp_all

text \<open>What the limits look like, for a finite focus distance beyond the focal length.\<close>

lemma GetDepthOfField_limits:
  assumes fl: "focal_length (lens c) = \<lparr>magnitude = Fin f, units = uf\<rparr>"
    and ad: "aperture_diameter (lens c) = \<lparr>magnitude = Fin a, units = ua\<rparr>"
    and pp: "pixel_pitch (sensor c) = \<lparr>magnitude = Fin p, units = up\<rparr>"
    and bayer: "cfa (sensor c) = ''bayer''"
    and pos: "0 < f" "0 < a" "0 < p"
    and dims: "lendim uf = 1" "lendim ua = 1" "lendim up = 1" "lendim us = 1"
    and gt: "f * scale uf < s * scale us"
  shows "\<exists>n far. GetDepthOfField c \<lparr>magnitude = Fin s, units = us\<rparr> =
             Inr (\<lparr>magnitude = Fin n, units = us\<rparr>, far) \<and> 0 < n \<and> n < s \<and>
           (if 0 < f * scale uf * (f * scale uf) -
                 f * scale uf / (a * scale ua) * (225 / 100 * (p * scale up)) * (s * scale us)
            then \<exists>m. far = \<lparr>magnitude = Fin m, units = us\<rparr> \<and> s < m
            else far = \<lparr>magnitude = PInf, units = unit_dim meter\<rparr>)"
proof -
  let ?X = "f / a * (225 / 100 * p) * s * (scale up * scale us / (scale ua * scale uf))"
  have sc: "0 < scale uf" "0 < scale ua" "0 < scale up" "0 < scale us"
    by (rule scale_pos)+
  have s: "0 < s"
  proof -
    have "0 < f * scale uf" using pos sc by simp
    then have "0 < s * scale us" using gt by linarith
    then show ?thesis using sc by (simp add: zero_less_mult_iff)
  qed
  have q: "0 < f * f" using pos by simp
  have X: "0 < ?X" using pos s sc by simp
  note mf = metric_form(2) [OF sc(1) sc(2) sc(3) sc(4) pos(2), of f p s]
  have pos_iff: "0 < scale uf * scale uf * x \<longleftrightarrow> 0 < x" for x
    using sc(1) by (simp add: zero_less_mult_iff)
  note dof = GetDepthOfField_Fin [OF assms]
  show ?thesis
  proof (cases "0 < f * f - ?X")
    case True
    then show ?thesis
      unfolding mf pos_iff dof
      using dof_real [OF s q X] by (simp only: if_True) blast
  next
    case False
    then show ?thesis
      unfolding mf pos_iff dof
      using dof_real(1,2) [OF s q X] by (simp only: if_False) blast
  qed
qed

lemma qlt_PInf:
  assumes "lendim ua = 1"
  shows "qlt \<lparr>magnitude = Fin a, units = ua\<rparr> \<lparr>magnitude = PInf, units = unit_dim meter\<rparr> =
         Inr True"
  using assms scale_pos [of "unit_dim meter"]
  by (simp add: qlt_def simplified_def dim_eq_def lendim_unit_dim signed_inf_def)

lemma near_denominator:
  assumes fl: "focal_length (lens c) = \<lparr>magnitude = Fin f, units = uf\<rparr>"
    and ad: "aperture_diameter (lens c) = \<lparr>magnitude = Fin a, units = ua\<rparr>"
    and pp: "pixel_pitch (sensor c) = \<lparr>magnitude = Fin p, units = up\<rparr>"
    and bayer: "cfa (sensor c) = ''bayer''"
    and pos: "0 < f" "0 < a" "0 < p"
    and dims: "lendim uf = 1" "lendim ua = 1" "lendim up = 1" "lendim us = 1"
    and gt: "f * scale uf < s * scale us"
  shows "\<exists>coc d ud. circle_of_confusion_diameter (sensor c) = Inr coc \<and>
           qadd (qmul (focal_length (lens c)) (focal_length (lens c)))
             (qmul (qmul (f_number (lens c)) coc) \<lparr>magnitude = Fin s, units = us\<rparr>) =
           Inr \<lparr>magnitude = Fin d, units = ud\<rparr> \<and> 0 < d"
proof -
  let ?ncs = "f / a * (225 / 100 * p) * s"
  let ?u = "dim_mul (dim_mul (dim_div uf ua) up) us"
  have s: "0 < s"
  proof -
    have "0 < f * scale uf" using pos scale_pos [of uf] by simp
    then have "0 < s * scale us" using gt by linarith
    then show ?thesis using scale_pos [of us] by (simp add: zero_less_mult_iff)
  qed
  have coc: "circle_of_confusion_diameter (sensor c) =
             Inr \<lparr>magnitude = Fin (225 / 100 * p), units = up\<rparr>"
    using pp bayer by (rule circle_of_confusion_diameter_bayer)
  have fn: "f_number (lens c) = \<lparr>magnitude = Fin (f / a), units = dim_div uf ua\<rparr>"
    using fl ad pos by (simp add: f_number_Fin)
  have ld: "lendim ?u = lendim (dim_mul uf uf)"
    using dims by (simp add: lendim_dim_mul lendim_dim_div)
  have "qadd (qmul (focal_length (lens c)) (focal_length (lens c)))
          (qmul (qmul (f_number (lens c)) \<lparr>magnitude = Fin (225 / 100 * p), units = up\<rparr>)
             \<lparr>magnitude = Fin s, units = us\<rparr>) =
        Inr \<lparr>magnitude = Fin (f * f + ?ncs * (scale ?u / scale (dim_mul uf uf))),
             units = dim_mul uf uf\<rparr>"
    using qadd_Fin [OF ld, of "f * f" ?ncs] by (simp add: fl fn qmul_def)
  moreover have "0 < f * f + ?ncs * (scale ?u / scale (dim_mul uf uf))"
  proof -
    have q: "0 < f * f" using pos by simp
    have n: "0 < ?ncs" using pos s by simp
    have r: "0 < scale ?u / scale (dim_mul uf uf)"
      using scale_pos by simp
    show ?thesis using q mult_pos_pos [OF n r] by linarith
  qed
  ultimately show ?thesis using coc by blast
qed

section \<open>Depth of field\<close>

text \<open>
  Claim C1. For a camera with a bayer sensor and positive finite focal length \<open>f\<close>,
  aperture diameter \<open>a\<close> and pixel pitch \<open>p\<close> (lengths, in any units), and a finite
  focus distance \<open>s\<close> beyond the focal length, \<open>GetDepthOfField\<close> returns
  \<open>near = S F\<^sup>2 / (F\<^sup>2 + N C S)\<close>, and \<open>far = S F\<^sup>2 / (F\<^sup>2 - N C S)\<close> when
  \<open>F\<^sup>2 - N C S > 0\<close>, otherwise the float infinity in metres. Here \<open>F\<close>, \<open>C\<close> and \<open>S\<close>
  are the focal length, the circle of confusion and the focus distance in metres and
  \<open>N\<close> is the f-number; both limits come back in the unit of the focus distance.
\<close>

theorem GetDepthOfField_formula:
  assumes fl: "focal_length (lens c) = \<lparr>magnitude = Fin f, units = uf\<rparr>"
    and ad: "aperture_diameter (lens c) = \<lparr>magnitude = Fin a, units = ua\<rparr>"
    and pp: "pixel_pitch (sensor c) = \<lparr>magnitude = Fin p, units = up\<rparr>"
    and bayer: "cfa (sensor c) = ''bayer''"
    and pos: "0 < f" "0 < a" "0 < p"
    and dims: "lendim uf = 1" "lendim ua = 1" "lendim up = 1" "lendim us = 1"
    and gt: "f * scale uf < s * scale us"
  shows "GetDepthOfField c \<lparr>magnitude = Fin s, units = us\<rparr> =
         (let F = f * scale uf; N = F / (a * scale ua); C = 225 / 100 * (p * scale up);
              S = s * scale us
          in Inr (\<lparr>magnitude = Fin (S * (F * F) / (F * F + N * C * S) / scale us),
                    units = us\<rparr>,
                  if 0 < F * F - N * C * S
                  then \<lparr>magnitude = Fin (S * (F * F) / (F * F - N * C * S) / scale us),
                         units = us\<rparr>
                  else \<lparr>magnitude = PInf, units = unit_dim meter\<rparr>))"
proof -
  have sc: "0 < scale uf" "0 < scale ua" "0 < scale up" "0 < scale us"
    by (rule scale_pos)+
  note mf = metric_form [OF sc(1) sc(2) sc(3) sc(4) pos(2), of f p s]
  have pos_iff: "0 < scale uf * scale uf * x \<longleftrightarrow> 0 < x" for x
    using sc(1) by (simp add: zero_less_mult_iff)
  have quot: "s * scale us * (f * scale uf * (f * scale uf)) / (scale uf * scale uf * x) / scale us
              = s * (f * f) / x" for x
    using sc(1) sc(4) by (simp add: field_simps)
  show ?thesis
    unfolding Let_def GetDepthOfField_Fin [OF assms] mf pos_iff quot
    by (rule refl)
qed

text \<open>
  The camera of camera\_test.py focused at 1 m: near 40/49 m (0.8163) and far 40/31 m
  (1.29), the values the test expects.
\<close>

theorem GetDepthOfField_formula_witness:
  "GetDepthOfField (test_camera ''rectilinear'') \<lparr>magnitude = Fin 1, units = unit_dim meter\<rparr> =
   Inr (\<lparr>magnitude = Fin (40 / 49), units = unit_dim meter\<rparr>,
        \<lparr>magnitude = Fin (40 / 31), units = unit_dim meter\<rparr>)"
  using GetDepthOfField_formula [where c = "test_camera ''rectilinear''" and f = 10
      and uf = "unit_dim mm" and a = 5 and ua = "unit_dim mm" and p = 5
      and up = "unit_dim micron" and s = 1 and us = "unit_dim meter"]
  by (simp add: test_camera_fields scale_unit_dim lendim_unit_dim Let_def)

text \<open>The steps of the code behind the two limits, and an infinite operand rescaled.\<close>

lemma GetDepthOfField_steps:
  assumes fl: "focal_length (lens c) = \<lparr>magnitude = Fin f, units = uf\<rparr>"
    and ad: "aperture_diameter (lens c) = \<lparr>magnitude = Fin a, units = ua\<rparr>"
    and pp: "pixel_pitch (sensor c) = \<lparr>magnitude = Fin p, units = up\<rparr>"
    and bayer: "cfa (sensor c) = ''bayer''"
    and pos: "0 < f" "0 < a" "0 < p"
    and dims: "lendim uf = 1" "lendim ua = 1" "lendim up = 1" "lendim us = 1"
    and gt: "f * scale uf < s * scale us"
    and coc: "circle_of_confusion_diameter (sensor c) = Inr coc"
    and nd: "qadd (qmul (focal_length (lens c)) (focal_length (lens c)))
               (qmul (qmul (f_number (lens c)) coc) \<lparr>magnitude = Fin s, units = us\<rparr>) = Inr nd"
  shows "\<exists>sd. qsub (qmul (focal_length (lens c)) (focal_length (lens c)))
               (qmul (qmul (f_number (lens c)) coc) \<lparr>magnitude = Fin s, units = us\<rparr>) = Inr sd \<and>
           GetDepthOfField c \<lparr>magnitude = Fin s, units = us\<rparr> =
             Inr (qdiv (qmul \<lparr>magnitude = Fin s, units = us\<rparr>
                          (qmul (focal_length (lens c)) (focal_length (lens c)))) nd,
                  if qgt_number sd (Fin 0)
                  then qdiv (qmul \<lparr>magnitude = Fin s, units = us\<rparr>
                          (qmul (focal_length (lens c)) (focal_length (lens c)))) sd
                  else smul PInf (unit_quantity meter))"
proof -
  let ?fd = "\<lparr>magnitude = Fin s, units = us\<rparr>"
  let ?u = "dim_mul (dim_mul (dim_div uf ua) up) us"
  have cocv: "coc = \<lparr>magnitude = Fin (225 / 100 * p), units = up\<rparr>"
    using coc circle_of_confusion_diameter_bayer [OF pp bayer] by simp
  have fn: "f_number (lens c) = \<lparr>magnitude = Fin (f / a), units = dim_div uf ua\<rparr>"
    using fl ad pos by (simp add: f_number_Fin)
  have ld: "lendim ?u = lendim (dim_mul uf uf)"
    using dims by (simp add: lendim_dim_mul lendim_dim_div)
  have sd: "qsub (qmul (focal_length (lens c)) (focal_length (lens c)))
              (qmul (qmul (f_number (lens c)) coc) ?fd) =
        Inr \<lparr>magnitude = Fin (f * f - f / a * (225 / 100 * p) * s *
                 (scale ?u / scale (dim_mul uf uf))),
             units = dim_mul uf uf\<rparr>"
    using qsub_Fin [OF ld, of "f * f" "f / a * (225 / 100 * p) * s"]
    by (simp add: fl fn cocv qmul_def)
  have ok: "qgt ?fd (focal_length (lens c)) = Inr True"
    using gt dims by (simp add: fl qgt_Fin)
  have "GetDepthOfField c ?fd =
             Inr (qdiv (qmul ?fd (qmul (focal_length (lens c)) (focal_length (lens c)))) nd,
                  if qgt_number \<lparr>magnitude = Fin (f * f - f / a * (225 / 100 * p) * s *
                        (scale ?u / scale (dim_mul uf uf))), units = dim_mul uf uf\<rparr> (Fin 0)
                  then qdiv (qmul ?fd (qmul (focal_length (lens c)) (focal_length (lens c))))
                         \<lparr>magnitude = Fin (f * f - f / a * (225 / 100 * p) * s *
                        (scale ?u / scale (dim_mul uf uf))), units = dim_mul uf uf\<rparr>
                  else smul PInf (unit_quantity meter))"
    by (simp only: GetDepthOfField_def Let_def ok coc nd sd and_then_def sum.case simp_thms
        if_False)
  with sd show ?thesis by blast
qed

lemma rescale_PInf:
  assumes "lendim u = lendim d"
  shows "rescale \<lparr>magnitude = PInf, units = u\<rparr> d = Inr \<lparr>magnitude = PInf, units = d\<rparr>"
proof -
  have "0 < scale u / scale d" using scale_pos [of u] scale_pos [of d] by simp
  then show ?thesis
    using assms by (auto simp: rescale_def dim_eq_iff signed_inf_def)
qed

text \<open>
  Claim C10, as amended. For the same cameras and every finite focus distance beyond
  the focal length, at or past the hyperfocal distance included: the sum
  \<open>f\<^sup>2 + N c s\<close> the code computes is a finite positive number \<open>d\<close>; the near limit returned
  is \<open>s f\<^sup>2\<close> over that very \<open>d\<close>; the far limit returned is \<open>s f\<^sup>2\<close> over the difference
  \<open>f\<^sup>2 - N c s\<close> when that is positive and \<open>INF * pq.m\<close> otherwise; and the near limit is
  finite, positive, below the focus distance and below the far limit in both cases.
\<close>

theorem near_limit_bounds:
  assumes fl: "focal_length (lens c) = \<lparr>magnitude = Fin f, units = uf\<rparr>"
    and ad: "aperture_diameter (lens c) = \<lparr>magnitude = Fin a, units = ua\<rparr>"
    and pp: "pixel_pitch (sensor c) = \<lparr>magnitude = Fin p, units = up\<rparr>"
    and bayer: "cfa (sensor c) = ''bayer''"
    and pos: "0 < f" "0 < a" "0 < p"
    and dims: "lendim uf = 1" "lendim ua = 1" "lendim up = 1" "lendim us = 1"
    and gt: "f * scale uf < s * scale us"
  shows "\<exists>coc d ud sd near far.
           circle_of_confusion_diameter (sensor c) = Inr coc \<and>
           qadd (qmul (focal_length (lens c)) (focal_length (lens c)))
             (qmul (qmul (f_number (lens c)) coc) \<lparr>magnitude = Fin s, units = us\<rparr>) =
           Inr \<lparr>magnitude = Fin d, units = ud\<rparr> \<and> 0 < d \<and>
           qsub (qmul (focal_length (lens c)) (focal_length (lens c)))
             (qmul (qmul (f_number (lens c)) coc) \<lparr>magnitude = Fin s, units = us\<rparr>) = Inr sd \<and>
           near = qdiv (qmul \<lparr>magnitude = Fin s, units = us\<rparr>
                          (qmul (focal_length (lens c)) (focal_length (lens c))))
                    \<lparr>magnitude = Fin d, units = ud\<rparr> \<and>
           far = (if qgt_number sd (Fin 0)
                  then qdiv (qmul \<lparr>magnitude = Fin s, units = us\<rparr>
                          (qmul (focal_length (lens c)) (focal_length (lens c)))) sd
                  else smul PInf (unit_quantity meter)) \<and>
           GetDepthOfField c \<lparr>magnitude = Fin s, units = us\<rparr> = Inr (near, far) \<and>
           isfinite (magnitude near) \<and> qgt_number near (Fin 0) \<and>
           qlt near \<lparr>magnitude = Fin s, units = us\<rparr> = Inr True \<and>
           qlt near far = Inr True"
proof -
  let ?fd = "\<lparr>magnitude = Fin s, units = us\<rparr>"
  let ?f2 = "qmul (focal_length (lens c)) (focal_length (lens c))"
  obtain coc d ud where den:
    "circle_of_confusion_diameter (sensor c) = Inr coc"
    "qadd ?f2 (qmul (qmul (f_number (lens c)) coc) ?fd) = Inr \<lparr>magnitude = Fin d, units = ud\<rparr>"
    "0 < d"
    using near_denominator [OF assms] by blast
  obtain sd where steps:
    "qsub ?f2 (qmul (qmul (f_number (lens c)) coc) ?fd) = Inr sd"
    "GetDepthOfField c ?fd =
       Inr (qdiv (qmul ?fd ?f2) \<lparr>magnitude = Fin d, units = ud\<rparr>,
            if qgt_number sd (Fin 0) then qdiv (qmul ?fd ?f2) sd
            else smul PInf (unit_quantity meter))"
    using GetDepthOfField_steps [OF assms den(1) den(2)] by blast
  let ?near = "qdiv (qmul ?fd ?f2) \<lparr>magnitude = Fin d, units = ud\<rparr>"
  let ?far = "if qgt_number sd (Fin 0) then qdiv (qmul ?fd ?f2) sd
              else smul PInf (unit_quantity meter)"
  obtain n far where lim:
    "GetDepthOfField c ?fd = Inr (\<lparr>magnitude = Fin n, units = us\<rparr>, far)" "0 < n" "n < s"
    "if 0 < f * scale uf * (f * scale uf) -
          f * scale uf / (a * scale ua) * (225 / 100 * (p * scale up)) * (s * scale us)
     then \<exists>m. far = \<lparr>magnitude = Fin m, units = us\<rparr> \<and> s < m
     else far = \<lparr>magnitude = PInf, units = unit_dim meter\<rparr>"
    using GetDepthOfField_limits [OF assms] by blast
  have nv: "?near = \<lparr>magnitude = Fin n, units = us\<rparr>" and fv: "?far = far"
    using steps(2) lim(1) by simp_all
  have su: "0 < scale us" by (rule scale_pos)
  have fin: "isfinite (magnitude ?near)"
    unfolding nv by (simp add: isfinite_def)
  have gt0: "qgt_number ?near (Fin 0)"
    unfolding nv using lim(2) by (simp add: qgt_number_def fgt_def)
  have lt_s: "qlt ?near ?fd = Inr True"
    unfolding nv using lim(3) su by (simp add: qlt_Fin)
  have "qlt \<lparr>magnitude = Fin n, units = us\<rparr> far = Inr True"
  proof (cases "0 < f * scale uf * (f * scale uf) -
          f * scale uf / (a * scale ua) * (225 / 100 * (p * scale up)) * (s * scale us)")
    case True
    then obtain m where m: "far = \<lparr>magnitude = Fin m, units = us\<rparr>" "s < m"
      using lim(4) by auto
    then have "n < m" using lim(3) by linarith
    then show ?thesis using su by (simp add: m(1) qlt_Fin)
  next
    case False
    then have "far = \<lparr>magnitude = PInf, units = unit_dim meter\<rparr>"
      using lim(4) by simp
    then show ?thesis using dims(4) by (simp add: qlt_PInf)
  qed
  then have lt_far: "qlt ?near ?far = Inr True"
    unfolding nv fv .
  show ?thesis
    using den steps fin gt0 lt_s lt_far by blast
qed

text \<open>The camera of camera\_test.py focused at 25 m, the distance of example.py.\<close>

theorem near_limit_bounds_witness:
  "\<exists>coc d ud sd near far.
     circle_of_confusion_diameter (sensor (test_camera ''rectilinear'')) = Inr coc \<and>
     qadd (qmul (focal_length (lens (test_camera ''rectilinear'')))
                (focal_length (lens (test_camera ''rectilinear''))))
       (qmul (qmul (f_number (lens (test_camera ''rectilinear''))) coc)
          \<lparr>magnitude = Fin 25, units = unit_dim meter\<rparr>) =
     Inr \<lparr>magnitude = Fin d, units = ud\<rparr> \<and> 0 < d \<and>
     qsub (qmul (focal_length (lens (test_camera ''rectilinear'')))
                (focal_length (lens (test_camera ''rectilinear''))))
       (qmul (qmul (f_number (lens (test_camera ''rectilinear''))) coc)
          \<lparr>magnitude = Fin 25, units = unit_dim meter\<rparr>) = Inr sd \<and>
     near = qdiv (qmul \<lparr>magnitude = Fin 25, units = unit_dim meter\<rparr>
                    (qmul (focal_length (lens (test_camera ''rectilinear'')))
                          (focal_length (lens (test_camera ''rectilinear'')))))
              \<lparr>magnitude = Fin d, units = ud\<rparr> \<and>
     far = (if qgt_number sd (Fin 0)
            then qdiv (qmul \<lparr>magnitude = Fin 25, units = unit_dim meter\<rparr>
                    (qmul (focal_length (lens (test_camera ''rectilinear'')))
                          (focal_length (lens (test_camera ''rectilinear''))))) sd
            else smul PInf (unit_quantity meter)) \<and>
     GetDepthOfField (test_camera ''rectilinear'') \<lparr>magnitude = Fin 25, units = unit_dim meter\<rparr> =
       Inr (near, far) \<and>
     isfinite (magnitude near) \<and> qgt_number near (Fin 0) \<and>
     qlt near \<lparr>magnitude = Fin 25, units = unit_dim meter\<rparr> = Inr True \<and>
     qlt near far = Inr True"
  by (rule near_limit_bounds [where f = 10 and uf = "unit_dim mm" and a = 5
        and ua = "unit_dim mm" and p = 5 and up = "unit_dim micron"])
    (simp_all add: test_camera_fields scale_unit_dim lendim_unit_dim)

text \<open>
  Claim C10 as stated covers every focus distance beyond the focal length. The
  distance \<open>INF * pq.m\<close>, which the code itself hands out as a far limit, passes the
  \<open>assert\<close>; the near limit is then \<open>inf / inf\<close>, a \<open>nan\<close>, which is neither finite nor
  positive nor below anything.
\<close>

theorem near_limit_bounds_counterexample:
  "qgt \<lparr>magnitude = PInf, units = unit_dim meter\<rparr>
     (focal_length (lens (test_camera ''rectilinear''))) = Inr True \<and>
   GetDepthOfField (test_camera ''rectilinear'') \<lparr>magnitude = PInf, units = unit_dim meter\<rparr> =
     Inr (\<lparr>magnitude = NaN, units = unit_dim meter\<rparr>,
          \<lparr>magnitude = PInf, units = unit_dim meter\<rparr>) \<and>
   \<not> isfinite NaN"
proof -
  let ?c = "test_camera ''rectilinear''"
  let ?fd = "\<lparr>magnitude = PInf, units = unit_dim meter\<rparr>"
  let ?f2 = "\<lparr>magnitude = Fin 100, units = dim_mul (unit_dim mm) (unit_dim mm)\<rparr>"
  let ?u = "dim_mul (dim_mul (dim_div (unit_dim mm) (unit_dim mm)) (unit_dim micron))
              (unit_dim meter)"
  have sc: "0 < scale (unit_dim meter)" "0 < scale (unit_dim mm)"
    by (rule scale_pos)+
  have ok: "qgt ?fd (focal_length (lens ?c)) = Inr True"
    using sc
    by (simp add: test_camera_fields qgt_def simplified_def dim_eq_def lendim_unit_dim
        fgt_def signed_inf_def)
  have f2: "qmul (focal_length (lens ?c)) (focal_length (lens ?c)) = ?f2"
    by (simp add: test_camera_fields qmul_def)
  have coc: "circle_of_confusion_diameter (sensor ?c) =
             Inr \<lparr>magnitude = Fin (225 / 100 * 5), units = unit_dim micron\<rparr>"
    by (rule circle_of_confusion_diameter_bayer) (simp_all add: test_camera_fields)
  have ncs: "qmul (qmul (f_number (lens ?c))
                \<lparr>magnitude = Fin (225 / 100 * 5), units = unit_dim micron\<rparr>) ?fd =
             \<lparr>magnitude = PInf, units = ?u\<rparr>"
    by (simp add: f_number_def test_camera_fields qdiv_def qmul_def signed_inf_def)
  have ld: "lendim ?u = lendim (dim_mul (unit_dim mm) (unit_dim mm))"
    by (simp add: lendim_dim_mul lendim_dim_div lendim_unit_dim)
  have nd: "qadd ?f2 \<lparr>magnitude = PInf, units = ?u\<rparr> =
            Inr \<lparr>magnitude = PInf, units = dim_mul (unit_dim mm) (unit_dim mm)\<rparr>"
    by (simp add: qadd_def rescale_PInf [OF ld] and_then_def)
  have sd: "qsub ?f2 \<lparr>magnitude = PInf, units = ?u\<rparr> =
            Inr \<lparr>magnitude = NInf, units = dim_mul (unit_dim mm) (unit_dim mm)\<rparr>"
    by (simp add: qsub_def rescale_PInf [OF ld] and_then_def fsub_def)
  have "GetDepthOfField ?c ?fd =
     Inr (\<lparr>magnitude = NaN, units = unit_dim meter\<rparr>,
          \<lparr>magnitude = PInf, units = unit_dim meter\<rparr>)"
    apply (simp only: GetDepthOfField_def Let_def ok f2 coc ncs nd sd and_then_def sum.case
        simp_thms if_False)
    apply (simp add: qdiv_def qmul_def qgt_number_def fgt_def smul_def unit_quantity_def
        dim_cancel signed_inf_def)
    done
  moreover have "\<not> isfinite NaN" by (simp add: isfinite_def)
  ultimately show ?thesis using ok by blast
qed

text \<open>
  Claim C2, as amended. The hyperfocal distance is \<open>H = F\<^sup>2 / (N C) + F\<close>, while the far
  limit becomes infinite as soon as \<open>F\<^sup>2 - N C S \<le> 0\<close>, that is from \<open>S = H - F\<close> on.
  So: focused at the hyperfocal distance the far limit is infinite; and for every
  focus distance above the focal length and strictly below \<open>F\<^sup>2 / (N C)\<close> (the hyperfocal
  distance less the focal length), \<open>0 < near < focus_distance < far < \<infinity>\<close>.
\<close>

theorem far_limit_below_hyperfocal:
  assumes fl: "focal_length (lens c) = \<lparr>magnitude = Fin f, units = uf\<rparr>"
    and ad: "aperture_diameter (lens c) = \<lparr>magnitude = Fin a, units = ua\<rparr>"
    and pp: "pixel_pitch (sensor c) = \<lparr>magnitude = Fin p, units = up\<rparr>"
    and bayer: "cfa (sensor c) = ''bayer''"
    and pos: "0 < f" "0 < a" "0 < p"
    and dims: "lendim uf = 1" "lendim ua = 1" "lendim up = 1"
  shows "(\<exists>H near. GetHyperfocalDistance c = Inr H \<and>
            GetDepthOfField c H = Inr (near, \<lparr>magnitude = PInf, units = unit_dim meter\<rparr>)) \<and>
         (\<forall>s us. lendim us = 1 \<and> f * scale uf < s * scale us \<and>
            s * scale us <
              f * scale uf * (f * scale uf) /
                (f * scale uf / (a * scale ua) * (225 / 100 * (p * scale up))) \<longrightarrow>
            (\<exists>near far. GetDepthOfField c \<lparr>magnitude = Fin s, units = us\<rparr> = Inr (near, far) \<and>
               qgt_number near (Fin 0) \<and>
               qlt near \<lparr>magnitude = Fin s, units = us\<rparr> = Inr True \<and>
               qlt \<lparr>magnitude = Fin s, units = us\<rparr> far = Inr True \<and>
               isfinite (magnitude far)))"
proof (intro conjI allI impI)
  show "\<exists>H near. GetHyperfocalDistance c = Inr H \<and>
          GetDepthOfField c H = Inr (near, \<lparr>magnitude = PInf, units = unit_dim meter\<rparr>)"
    using assms by (rule far_at_hyperfocal)
next
  fix s us
  let ?F = "f * scale uf"
  let ?NC = "?F / (a * scale ua) * (225 / 100 * (p * scale up))"
  assume h: "lendim us = 1 \<and> ?F < s * scale us \<and> s * scale us < ?F * ?F / ?NC"
  have su: "0 < scale us" by (rule scale_pos)
  have NC: "0 < ?NC" using pos scale_pos [of uf] scale_pos [of ua] scale_pos [of up] by simp
  have lt: "s * scale us < ?F * ?F / ?NC" using h by blast
  have "s * scale us * ?NC < ?F * ?F"
    using lt pos_less_divide_eq [OF NC] by blast
  then have "?NC * (s * scale us) < ?F * ?F"
    by (simp only: mult.commute [of "s * scale us" ?NC])
  then have sd: "0 < ?F * ?F - ?NC * (s * scale us)" by linarith
  obtain n far where lim:
    "GetDepthOfField c \<lparr>magnitude = Fin s, units = us\<rparr> =
       Inr (\<lparr>magnitude = Fin n, units = us\<rparr>, far)" "0 < n" "n < s"
    "if 0 < ?F * ?F - ?NC * (s * scale us)
     then \<exists>m. far = \<lparr>magnitude = Fin m, units = us\<rparr> \<and> s < m
     else far = \<lparr>magnitude = PInf, units = unit_dim meter\<rparr>"
    using GetDepthOfField_limits [OF fl ad pp bayer pos dims, of us s] h by blast
  obtain m where m: "far = \<lparr>magnitude = Fin m, units = us\<rparr>" "s < m"
    using lim(4) sd by auto
  have "qgt_number \<lparr>magnitude = Fin n, units = us\<rparr> (Fin 0)"
    using lim(2) by (simp add: qgt_number_def fgt_def)
  moreover have "qlt \<lparr>magnitude = Fin n, units = us\<rparr> \<lparr>magnitude = Fin s, units = us\<rparr> = Inr True"
    using lim(3) su by (simp add: qlt_Fin)
  moreover have "qlt \<lparr>magnitude = Fin s, units = us\<rparr> far = Inr True"
    using m su by (simp add: qlt_Fin)
  moreover have "isfinite (magnitude far)"
    using m by (simp add: isfinite_def)
  ultimately show "\<exists>near far. GetDepthOfField c \<lparr>magnitude = Fin s, units = us\<rparr> = Inr (near, far) \<and>
               qgt_number near (Fin 0) \<and>
               qlt near \<lparr>magnitude = Fin s, units = us\<rparr> = Inr True \<and>
               qlt \<lparr>magnitude = Fin s, units = us\<rparr> far = Inr True \<and>
               isfinite (magnitude far)"
    using lim(1) by blast
qed

text \<open>The camera of camera\_test.py, at its hyperfocal distance and at 1 m.\<close>

theorem far_limit_below_hyperfocal_witness:
  "(\<exists>H near. GetHyperfocalDistance (test_camera ''rectilinear'') = Inr H \<and>
      GetDepthOfField (test_camera ''rectilinear'') H =
        Inr (near, \<lparr>magnitude = PInf, units = unit_dim meter\<rparr>)) \<and>
   (\<exists>near far.
      GetDepthOfField (test_camera ''rectilinear'') \<lparr>magnitude = Fin 1, units = unit_dim meter\<rparr> =
        Inr (near, far) \<and>
      qgt_number near (Fin 0) \<and>
      qlt near \<lparr>magnitude = Fin 1, units = unit_dim meter\<rparr> = Inr True \<and>
      qlt \<lparr>magnitude = Fin 1, units = unit_dim meter\<rparr> far = Inr True \<and>
      isfinite (magnitude far))"
proof -
  note t = far_limit_below_hyperfocal [where c = "test_camera ''rectilinear''" and f = 10
      and uf = "unit_dim mm" and a = 5 and ua = "unit_dim mm" and p = 5
      and up = "unit_dim micron", OF test_camera_fields(1,2,3,4)]
  have t': "(\<exists>H near. GetHyperfocalDistance (test_camera ''rectilinear'') = Inr H \<and>
      GetDepthOfField (test_camera ''rectilinear'') H =
        Inr (near, \<lparr>magnitude = PInf, units = unit_dim meter\<rparr>)) \<and>
     (\<forall>s us. lendim us = 1 \<and> 10 * scale (unit_dim mm) < s * scale us \<and>
            s * scale us <
              10 * scale (unit_dim mm) * (10 * scale (unit_dim mm)) /
                (10 * scale (unit_dim mm) / (5 * scale (unit_dim mm)) *
                 (225 / 100 * (5 * scale (unit_dim micron)))) \<longrightarrow>
            (\<exists>near far. GetDepthOfField (test_camera ''rectilinear'')
                 \<lparr>magnitude = Fin s, units = us\<rparr> = Inr (near, far) \<and>
               qgt_number near (Fin 0) \<and>
               qlt near \<lparr>magnitude = Fin s, units = us\<rparr> = Inr True \<and>
               qlt \<lparr>magnitude = Fin s, units = us\<rparr> far = Inr True \<and>
               isfinite (magnitude far)))"
    by (rule t) (simp_all add: lendim_unit_dim)
  have pre: "lendim (unit_dim meter) = 1 \<and>
       10 * scale (unit_dim mm) < 1 * scale (unit_dim meter) \<and>
       1 * scale (unit_dim meter) <
         10 * scale (unit_dim mm) * (10 * scale (unit_dim mm)) /
           (10 * scale (unit_dim mm) / (5 * scale (unit_dim mm)) *
            (225 / 100 * (5 * scale (unit_dim micron))))"
    by (simp add: lendim_unit_dim scale_unit_dim)
  from t' have "\<forall>s us. lendim us = 1 \<and> 10 * scale (unit_dim mm) < s * scale us \<and>
            s * scale us <
              10 * scale (unit_dim mm) * (10 * scale (unit_dim mm)) /
                (10 * scale (unit_dim mm) / (5 * scale (unit_dim mm)) *
                 (225 / 100 * (5 * scale (unit_dim micron)))) \<longrightarrow>
            (\<exists>near far. GetDepthOfField (test_camera ''rectilinear'')
                 \<lparr>magnitude = Fin s, units = us\<rparr> = Inr (near, far) \<and>
               qgt_number near (Fin 0) \<and>
               qlt near \<lparr>magnitude = Fin s, units = us\<rparr> = Inr True \<and>
               qlt \<lparr>magnitude = Fin s, units = us\<rparr> far = Inr True \<and>
               isfinite (magnitude far))" ..
  then have "\<exists>near far. GetDepthOfField (test_camera ''rectilinear'')
                 \<lparr>magnitude = Fin 1, units = unit_dim meter\<rparr> = Inr (near, far) \<and>
               qgt_number near (Fin 0) \<and>
               qlt near \<lparr>magnitude = Fin 1, units = unit_dim meter\<rparr> = Inr True \<and>
               qlt \<lparr>magnitude = Fin 1, units = unit_dim meter\<rparr> far = Inr True \<and>
               isfinite (magnitude far)"
    using pre by blast
  with t' show ?thesis by blast
qed

text \<open>
  Claim C2 as stated fails between \<open>H - F\<close> and \<open>H\<close>: for the camera of camera\_test.py
  the hyperfocal distance is 4009/900 m (4.4544), the focus distance 4.45 m is above the
  focal length and strictly below it, and the far limit returned is infinite.
\<close>

theorem far_limit_below_hyperfocal_counterexample:
  "GetHyperfocalDistance (test_camera ''rectilinear'') =
     Inr \<lparr>magnitude = Fin (4009 / 900), units = unit_dim meter\<rparr> \<and>
   qgt \<lparr>magnitude = Fin (445 / 100), units = unit_dim meter\<rparr>
     (focal_length (lens (test_camera ''rectilinear''))) = Inr True \<and>
   qlt \<lparr>magnitude = Fin (445 / 100), units = unit_dim meter\<rparr>
     \<lparr>magnitude = Fin (4009 / 900), units = unit_dim meter\<rparr> = Inr True \<and>
   GetDepthOfField (test_camera ''rectilinear'')
     \<lparr>magnitude = Fin (445 / 100), units = unit_dim meter\<rparr> =
     Inr (\<lparr>magnitude = Fin (3560 / 1601), units = unit_dim meter\<rparr>,
          \<lparr>magnitude = PInf, units = unit_dim meter\<rparr>) \<and>
   \<not> isfinite PInf"
proof -
  have "GetHyperfocalDistance (test_camera ''rectilinear'') =
     Inr \<lparr>magnitude = Fin (4009 / 900), units = unit_dim meter\<rparr>"
    using GetHyperfocalDistance_Fin [where c = "test_camera ''rectilinear''" and f = 10
      and uf = "unit_dim mm" and a = 5 and ua = "unit_dim mm" and p = 5
      and up = "unit_dim micron"]
    by (simp add: test_camera_fields scale_unit_dim lendim_unit_dim)
  moreover have "qgt \<lparr>magnitude = Fin (445 / 100), units = unit_dim meter\<rparr>
     (focal_length (lens (test_camera ''rectilinear''))) = Inr True"
    by (simp add: test_camera_fields qgt_Fin lendim_unit_dim scale_unit_dim)
  moreover have "qlt \<lparr>magnitude = Fin (445 / 100), units = unit_dim meter\<rparr>
     \<lparr>magnitude = Fin (4009 / 900), units = unit_dim meter\<rparr> = Inr True"
    by (simp add: qlt_Fin scale_unit_dim)
  moreover have "GetDepthOfField (test_camera ''rectilinear'')
     \<lparr>magnitude = Fin (445 / 100), units = unit_dim meter\<rparr> =
     Inr (\<lparr>magnitude = Fin (3560 / 1601), units = unit_dim meter\<rparr>,
          \<lparr>magnitude = PInf, units = unit_dim meter\<rparr>)"
    using GetDepthOfField_Fin [where c = "test_camera ''rectilinear''" and f = 10
      and uf = "unit_dim mm" and a = 5 and ua = "unit_dim mm" and p = 5
      and up = "unit_dim micron" and s = "445 / 100" and us = "unit_dim meter"]
    by (simp add: test_camera_fields scale_unit_dim lendim_unit_dim)
  moreover have "\<not> isfinite PInf" by (simp add: isfinite_def)
  ultimately show ?thesis by blast
qed

section \<open>Hyperfocal distance\<close>

text \<open>
  Claim C3. For a camera with a bayer sensor and positive finite focal length,
  aperture diameter and pixel pitch, \<open>GetHyperfocalDistance\<close> returns
  \<open>F\<^sup>2 / (N C) + F\<close> in metres, whatever length units the inputs carry (\<open>F\<close> and \<open>C\<close>
  the focal length and circle of confusion in metres, \<open>N\<close> the f-number).
\<close>

theorem GetHyperfocalDistance_formula:
  assumes "focal_length (lens c) = \<lparr>magnitude = Fin f, units = uf\<rparr>"
    and "aperture_diameter (lens c) = \<lparr>magnitude = Fin a, units = ua\<rparr>"
    and "pixel_pitch (sensor c) = \<lparr>magnitude = Fin p, units = up\<rparr>"
    and "cfa (sensor c) = ''bayer''"
    and "0 < f" and "0 < a" and "0 < p"
    and "lendim uf = 1" and "lendim ua = 1" and "lendim up = 1"
  shows "GetHyperfocalDistance c =
         (let F = f * scale uf; N = F / (a * scale ua); C = 225 / 100 * (p * scale up)
          in Inr \<lparr>magnitude = Fin (F * F / (N * C) + F), units = unit_dim meter\<rparr>)"
  unfolding Let_def by (rule GetHyperfocalDistance_Fin [OF assms])

text \<open>The camera of camera\_test.py: 4009/900 m (4.4544).\<close>

theorem GetHyperfocalDistance_formula_witness:
  "GetHyperfocalDistance (test_camera ''rectilinear'') =
   Inr \<lparr>magnitude = Fin (4009 / 900), units = unit_dim meter\<rparr>"
  using GetHyperfocalDistance_formula [where c = "test_camera ''rectilinear''" and f = 10
      and uf = "unit_dim mm" and a = 5 and ua = "unit_dim mm" and p = 5
      and up = "unit_dim micron"]
  by (simp add: test_camera_fields scale_unit_dim lendim_unit_dim Let_def)

section \<open>Failures\<close>

text \<open>
  Claim C7. Whatever the camera, when the focus distance is at most the focal length
  (\<open>focus_distance <= focal_length\<close> holds for the two quantities), \<open>GetDepthOfField\<close>
  stops at its \<open>assert\<close> with an \<open>AssertionError\<close>: no pair of limits is returned, and the
  sensor's colour filter array is not even looked at.
\<close>

theorem GetDepthOfField_precondition:
  assumes "qle focus_distance (focal_length (lens c)) = Inr True"
  shows "GetDepthOfField c focus_distance = Inl AssertionError"
proof -
  have d: "dim_eq (units (simplified focus_distance)) (units (simplified (focal_length (lens c))))"
    and le: "fle (magnitude (simplified focus_distance))
               (magnitude (simplified (focal_length (lens c))))"
    using assms by (auto simp: qle_def split: if_splits)
  have "\<not> fgt (magnitude (simplified focus_distance))
             (magnitude (simplified (focal_length (lens c))))"
    unfolding fgt_def using le by (rule fle_not_flt)
  then have "qgt focus_distance (focal_length (lens c)) = Inr False"
    using d by (simp add: qgt_def)
  then show ?thesis
    by (simp add: GetDepthOfField_def Let_def and_then_def)
qed

text \<open>The camera of camera\_test.py focused at its own focal length, 10 mm.\<close>

theorem GetDepthOfField_precondition_witness:
  "qle \<lparr>magnitude = Fin 10, units = unit_dim mm\<rparr>
     (focal_length (lens (test_camera ''rectilinear''))) = Inr True \<and>
   GetDepthOfField (test_camera ''rectilinear'') \<lparr>magnitude = Fin 10, units = unit_dim mm\<rparr> =
     Inl AssertionError"
proof -
  have h: "qle \<lparr>magnitude = Fin 10, units = unit_dim mm\<rparr>
     (focal_length (lens (test_camera ''rectilinear''))) = Inr True"
    by (simp add: test_camera_fields qle_def simplified_def dim_eq_def)
  show ?thesis using h GetDepthOfField_precondition [OF h] by simp
qed

text \<open>
  Claim C4 (the code departs from it). A sensor whose \<open>cfa\<close> is not \<open>'bayer'\<close> and a lens
  whose \<open>projection\<close> is neither \<open>'rectilinear'\<close> nor \<open>'equidistant'\<close> do fail at the point
  of use, but through the undefined name \<open>Error\<close>: what is raised is a \<open>NameError\<close> about
  \<open>Error\<close>, which carries neither the field nor the offending value.
\<close>

theorem unsupported_variant_NameError:
  "circle_of_confusion_diameter (test_sensor\<lparr>cfa := ''foveon''\<rparr>) = Inl (NameError ''Error'') \<and>
   GetAngleOfView (test_lens ''stereographic'') (sensor_width test_sensor) =
     Inl (NameError ''Error'')"
  by (simp add: circle_of_confusion_diameter_def GetAngleOfView_def test_sensor_def
      test_lens_def)

section \<open>Independence of the projection\<close>

text \<open>
  Claim C8. Two cameras with the same sensor, focal length and aperture diameter, and
  so in particular two cameras that differ in the projection tag of the lens only,
  have the same hyperfocal distance and the same depth of field at every focus
  distance (the same failure, when there is one).
\<close>

theorem projection_independence:
  assumes "sensor c1 = sensor c2"
    and "focal_length (lens c1) = focal_length (lens c2)"
    and "aperture_diameter (lens c1) = aperture_diameter (lens c2)"
  shows "GetHyperfocalDistance c1 = GetHyperfocalDistance c2 \<and>
         GetDepthOfField c1 focus_distance = GetDepthOfField c2 focus_distance"
proof -
  have fn: "f_number (lens c1) = f_number (lens c2)"
    using assms by (simp add: f_number_def)
  show ?thesis
    unfolding GetHyperfocalDistance_def GetDepthOfField_def assms(1,2) fn
    by (rule conjI; rule refl)
qed

text \<open>The two cameras of camera\_test.py, rectilinear and equidistant.\<close>

theorem projection_independence_witness:
  "projection (lens (test_camera ''rectilinear'')) = ''rectilinear'' \<and>
   projection (lens (test_camera ''equidistant'')) = ''equidistant'' \<and>
   GetHyperfocalDistance (test_camera ''rectilinear'') =
     GetHyperfocalDistance (test_camera ''equidistant'') \<and>
   GetDepthOfField (test_camera ''rectilinear'') \<lparr>magnitude = Fin 1, units = unit_dim meter\<rparr> =
     GetDepthOfField (test_camera ''equidistant'') \<lparr>magnitude = Fin 1, units = unit_dim meter\<rparr>"
  using projection_independence [of "test_camera ''rectilinear''" "test_camera ''equidistant''"
      "\<lparr>magnitude = Fin 1, units = unit_dim meter\<rparr>"]
  by (simp add: test_camera_def test_lens_def)

section \<open>Angle of view\<close>

lemma dim_mul_dimensionless: "dim_mul dimensionless d = d"
  by (rule ext) (simp add: dim_mul_def dimensionless_def)

lemma atan2_pos: "0 < x \<Longrightarrow> atan2 y x = arctan (y / x)"
  by (simp add: atan2_def)

lemma GetAngleOfView_rectilinear:
  assumes "projection l = ''rectilinear''"
    and "focal_length l = \<lparr>magnitude = Fin f, units = uf\<rparr>"
    and "lendim uf = lendim uL"
  shows "GetAngleOfView l \<lparr>magnitude = Fin L, units = uL\<rparr> =
         Inr \<lparr>magnitude = Fin (2 * atan2 L (2 * (f * scale uf / scale uL))),
              units = unit_dim radian\<rparr>"
  using assms
  by (simp add: GetAngleOfView_def rescale_Fin and_then_def qarctan2_def smul_def
      dim_eq_def qmul_def unit_quantity_def dim_mul_dimensionless)

lemma rectilinear_limit:
  fixes k :: real
  assumes "0 < k"
  shows "((\<lambda>L. 2 * atan2 L (2 * k)) \<longlongrightarrow> pi) at_top"
proof -
  have e: "(\<lambda>L. 2 * atan2 L (2 * k)) = (\<lambda>L. 2 * arctan (L / (2 * k)))"
    using assms by (simp add: atan2_pos)
  have "filterlim (\<lambda>L. L / (2 * k)) at_top at_top"
  proof -
    have c: "((\<lambda>L::real. 1 / (2 * k)) \<longlongrightarrow> 1 / (2 * k)) at_top"
      by (rule tendsto_const)
    have p: "0 < 1 / (2 * k)" using assms by simp
    have "filterlim (\<lambda>L. 1 / (2 * k) * L) at_top at_top"
      by (rule filterlim_tendsto_pos_mult_at_top [OF c p filterlim_ident])
    then show ?thesis by simp
  qed
  then have "((\<lambda>L. arctan (L / (2 * k))) \<longlongrightarrow> pi / 2) at_top"
    by (rule filterlim_compose [OF tendsto_arctan_at_top])
  then have "((\<lambda>L. 2 * arctan (L / (2 * k))) \<longlongrightarrow> 2 * (pi / 2)) at_top"
    by (intro tendsto_mult_left)
  then show ?thesis unfolding e by simp
qed

lemma equidistant_units:
  assumes "lendim uL = lendim uf"
  shows "dim_mul (\<lambda>u. if u = meter then lendim (dim_div uL uf) else 0) (unit_dim radian) =
         unit_dim radian"
  using assms by (intro ext) (simp add: dim_mul_def lendim_dim_div unit_dim_def)

text \<open>
  Claim C5. For a rectilinear lens of positive finite focal length, the angle of view
  of a focal-plane length \<open>L\<close> is \<open>2 atan2(L, 2 f')\<close> radians, \<open>f'\<close> being the focal length
  converted to the unit of \<open>L\<close>. For \<open>L > 0\<close> it stays strictly below \<open>pi\<close>, it is strictly
  increasing in \<open>L\<close>, and it tends to \<open>pi\<close> as \<open>L\<close> grows without bound.
\<close>

theorem rectilinear_angle_of_view:
  assumes proj: "projection l = ''rectilinear''"
    and fl: "focal_length l = \<lparr>magnitude = Fin f, units = uf\<rparr>"
    and pos: "0 < f"
    and dims: "lendim uf = lendim uL"
  shows "(\<forall>L. GetAngleOfView l \<lparr>magnitude = Fin L, units = uL\<rparr> =
              Inr \<lparr>magnitude = Fin (2 * atan2 L (2 * (f * scale uf / scale uL))),
                   units = unit_dim radian\<rparr>) \<and>
         (\<forall>L>0. 2 * atan2 L (2 * (f * scale uf / scale uL)) < pi) \<and>
         (\<forall>L1 L2. 0 < L1 \<and> L1 < L2 \<longrightarrow>
            2 * atan2 L1 (2 * (f * scale uf / scale uL)) <
            2 * atan2 L2 (2 * (f * scale uf / scale uL))) \<and>
         ((\<lambda>L. 2 * atan2 L (2 * (f * scale uf / scale uL))) \<longlongrightarrow> pi) at_top"
proof -
  let ?k = "f * scale uf / scale uL"
  have k: "0 < ?k" using pos scale_pos [of uf] scale_pos [of uL] by simp
  then have k2: "0 < 2 * ?k" by simp
  have val: "GetAngleOfView l \<lparr>magnitude = Fin L, units = uL\<rparr> =
              Inr \<lparr>magnitude = Fin (2 * atan2 L (2 * ?k)), units = unit_dim radian\<rparr>" for L
    using proj fl dims by (rule GetAngleOfView_rectilinear)
  have bound: "2 * atan2 L (2 * ?k) < pi" for L
  proof -
    have "arctan (L / (2 * ?k)) < pi / 2" by (rule arctan_ubound)
    then have "2 * arctan (L / (2 * ?k)) < pi" by linarith
    then show ?thesis by (simp only: atan2_pos [OF k2])
  qed
  have mono: "2 * atan2 L1 (2 * ?k) < 2 * atan2 L2 (2 * ?k)" if "L1 < L2" for L1 L2
  proof -
    have "L1 / (2 * ?k) < L2 / (2 * ?k)"
      using that k2 by (rule divide_strict_right_mono)
    then have "arctan (L1 / (2 * ?k)) < arctan (L2 / (2 * ?k))"
      by (simp only: arctan_less_iff)
    then have "2 * arctan (L1 / (2 * ?k)) < 2 * arctan (L2 / (2 * ?k))" by linarith
    then show ?thesis by (simp only: atan2_pos [OF k2])
  qed
  have lim: "((\<lambda>L. 2 * atan2 L (2 * ?k)) \<longlongrightarrow> pi) at_top"
    using k by (rule rectilinear_limit)
  show ?thesis using val bound mono lim by blast
qed

text \<open>
  The lens of camera\_test.py over the sensor width, 20000 micron: a right angle, the
  90 degrees the test expects.
\<close>

theorem rectilinear_angle_of_view_witness:
  "GetAngleOfView (test_lens ''rectilinear'') (sensor_width test_sensor) =
     Inr \<lparr>magnitude = Fin (pi / 2), units = unit_dim radian\<rparr> \<and>
   2 * atan2 20000 20000 < pi \<and>
   2 * atan2 15000 20000 < 2 * atan2 20000 20000 \<and>
   ((\<lambda>L. 2 * atan2 L 20000) \<longlongrightarrow> pi) at_top"
proof -
  have t: "(\<forall>L. GetAngleOfView (test_lens ''rectilinear'')
                  \<lparr>magnitude = Fin L, units = unit_dim micron\<rparr> =
              Inr \<lparr>magnitude = Fin (2 * atan2 L 20000), units = unit_dim radian\<rparr>) \<and>
         (\<forall>L>0. 2 * atan2 L 20000 < pi) \<and>
         (\<forall>L1 L2. 0 < L1 \<and> L1 < L2 \<longrightarrow> 2 * atan2 L1 20000 < 2 * atan2 L2 20000) \<and>
         ((\<lambda>L. 2 * atan2 L 20000) \<longlongrightarrow> pi) at_top"
    using rectilinear_angle_of_view [where l = "test_lens ''rectilinear''" and f = 10
        and uf = "unit_dim mm" and uL = "unit_dim micron"]
    by (simp add: test_lens_def smul_def unit_quantity_def lendim_unit_dim scale_unit_dim)
  have w: "sensor_width test_sensor = \<lparr>magnitude = Fin 20000, units = unit_dim micron\<rparr>"
    by (simp add: sensor_width_def test_sensor_def muls_def smul_def unit_quantity_def)
  have a: "2 * atan2 20000 20000 = pi / 2"
    by (simp add: atan2_def arctan_one)
  from t have "GetAngleOfView (test_lens ''rectilinear'')
                  \<lparr>magnitude = Fin 20000, units = unit_dim micron\<rparr> =
              Inr \<lparr>magnitude = Fin (2 * atan2 20000 20000), units = unit_dim radian\<rparr>"
    by blast
  then have v: "GetAngleOfView (test_lens ''rectilinear'') (sensor_width test_sensor) =
     Inr \<lparr>magnitude = Fin (pi / 2), units = unit_dim radian\<rparr>"
    by (simp only: w a)
  from t have b: "2 * atan2 20000 20000 < pi"
    and m: "2 * atan2 15000 20000 < 2 * atan2 20000 20000"
    and l: "((\<lambda>L. 2 * atan2 L 20000) \<longlongrightarrow> pi) at_top"
    by simp_all
  show ?thesis using v b m l by blast
qed

text \<open>
  Claim C6. For an equidistant lens of positive finite focal length, the angle of view
  of a focal-plane length is that length over the focal length (both in metres), in
  radians; twice the focal-plane length gives twice the angle.
\<close>

theorem equidistant_angle_of_view:
  assumes proj: "projection l = ''equidistant''"
    and fl: "focal_length l = \<lparr>magnitude = Fin f, units = uf\<rparr>"
    and pos: "0 < f"
    and dims: "lendim uL = lendim uf"
  shows "GetAngleOfView l \<lparr>magnitude = Fin L, units = uL\<rparr> =
           Inr \<lparr>magnitude = Fin (L * scale uL / (f * scale uf)), units = unit_dim radian\<rparr> \<and>
         GetAngleOfView l (smul (Fin 2) \<lparr>magnitude = Fin L, units = uL\<rparr>) =
           Inr \<lparr>magnitude = Fin (2 * (L * scale uL / (f * scale uf))),
                units = unit_dim radian\<rparr>"
proof -
  have val: "GetAngleOfView l \<lparr>magnitude = Fin x, units = uL\<rparr> =
           Inr \<lparr>magnitude = Fin (x * scale uL / (f * scale uf)), units = unit_dim radian\<rparr>"
    for x
  proof -
    have q: "qdiv \<lparr>magnitude = Fin x, units = uL\<rparr> (focal_length l) =
             \<lparr>magnitude = Fin (x / f), units = dim_div uL uf\<rparr>"
      using fl pos by (simp add: qdiv_def)
    have s: "simplified \<lparr>magnitude = Fin (x / f), units = dim_div uL uf\<rparr> =
             \<lparr>magnitude = Fin (x * scale uL / (f * scale uf)),
              units = (\<lambda>u. if u = meter then lendim (dim_div uL uf) else 0)\<rparr>"
      by (simp add: simplified_def scale_dim_div cong: if_cong)
    show ?thesis
      using proj
      by (simp add: GetAngleOfView_def q s qmul_def unit_quantity_def
          equidistant_units [OF dims])
  qed
  have two: "smul (Fin 2) \<lparr>magnitude = Fin L, units = uL\<rparr> =
             \<lparr>magnitude = Fin (2 * L), units = uL\<rparr>"
    by (simp add: smul_def)
  have "GetAngleOfView l (smul (Fin 2) \<lparr>magnitude = Fin L, units = uL\<rparr>) =
           Inr \<lparr>magnitude = Fin (2 * (L * scale uL / (f * scale uf))),
                units = unit_dim radian\<rparr>"
    unfolding two val by simp
  then show ?thesis using val [of L] by blast
qed

text \<open>The equidistant lens of camera\_test.py over the sensor width: 2 rad (114.6 degrees).\<close>

theorem equidistant_angle_of_view_witness:
  "GetAngleOfView (test_lens ''equidistant'') (sensor_width test_sensor) =
     Inr \<lparr>magnitude = Fin 2, units = unit_dim radian\<rparr> \<and>
   GetAngleOfView (test_lens ''equidistant'') (smul (Fin 2) (sensor_width test_sensor)) =
     Inr \<lparr>magnitude = Fin 4, units = unit_dim radian\<rparr>"
proof -
  have w: "sensor_width test_sensor = \<lparr>magnitude = Fin 20000, units = unit_dim micron\<rparr>"
    by (simp add: sensor_width_def test_sensor_def muls_def smul_def unit_quantity_def)
  show ?thesis
    unfolding w
    using equidistant_angle_of_view [where l = "test_lens ''equidistant''" and f = 10
        and uf = "unit_dim mm" and uL = "unit_dim micron" and L = 20000]
    by (simp add: test_lens_def smul_def unit_quantity_def lendim_unit_dim scale_unit_dim)
qed

section \<open>35 mm equivalent focal length\<close>

lemma sensor_diagonal_Fin:
  assumes "pixel_pitch s = \<lparr>magnitude = Fin p, units = up\<rparr>"
  shows "sensor_diagonal s =
         Inr \<lparr>magnitude = Fin (sqrt ((p * of_int (width_pixels s)) * (p * of_int (width_pixels s)) +
                                   (p * of_int (height_pixels s)) * (p * of_int (height_pixels s)))),
              units = up\<rparr>"
  using assms
  by (simp add: sensor_diagonal_def sensor_height_def sensor_width_def muls_def qhypot_def
      dim_eq_def add.commute)

lemma Get35mmEquivalentFocalLength_of_diagonal:
  assumes diag: "sensor_diagonal (sensor c) = Inr \<lparr>magnitude = Fin d, units = ud\<rparr>"
    and fl: "focal_length (lens c) = \<lparr>magnitude = Fin f, units = uf\<rparr>"
    and pos: "0 < d"
    and dims: "lendim uf = lendim ud"
  shows "Get35mmEquivalentFocalLength c =
         Inr \<lparr>magnitude = Fin (4327 / 100 / (d * scale ud) * (f * scale uf)),
              units = unit_dim mm\<rparr>"
proof -
  let ?u = "dim_mul (dim_div (unit_dim mm) ud) uf"
  have crop: "qmul (qdiv (smul (Fin (4327 / 100)) (unit_quantity mm))
                      \<lparr>magnitude = Fin d, units = ud\<rparr>) (focal_length (lens c)) =
              \<lparr>magnitude = Fin (4327 / 100 / d * f), units = ?u\<rparr>"
    using pos by (simp add: fl smul_def unit_quantity_def qdiv_def qmul_def)
  have ld: "lendim ?u = lendim (unit_dim mm)"
    using dims by (simp add: lendim_dim_mul lendim_dim_div)
  have sc: "scale ?u / scale (unit_dim mm) = scale uf / scale ud"
    using scale_nonzero [of "unit_dim mm"] by (simp add: scale_dim_mul scale_dim_div)
  have "4327 / 100 / d * f * scale ?u / scale (unit_dim mm) =
        4327 / 100 / d * f * (scale ?u / scale (unit_dim mm))"
    by simp
  also have "\<dots> = 4327 / 100 / (d * scale ud) * (f * scale uf)"
    unfolding sc by simp
  finally have mag: "4327 / 100 / d * f * scale ?u / scale (unit_dim mm) =
        4327 / 100 / (d * scale ud) * (f * scale uf)" .
  show ?thesis
    by (simp only: Get35mmEquivalentFocalLength_def diag and_then_def sum.case Let_def crop
        rescale_Fin [OF ld] mag)
qed

lemma test_diagonals:
  "sqrt 625000000 = 25000" "sqrt 156250000 = 12500"
  by (rule real_sqrt_unique; simp)+

text \<open>
  Claim C9. For a camera with positive finite pixel pitch, pixel counts and focal
  length, the sensor diagonal is \<open>D = hypot(pitch * width, pitch * height)\<close> in the unit of
  the pitch, and \<open>Get35mmEquivalentFocalLength\<close> returns \<open>43.27 / D * f\<close> in millimetres
  (\<open>D\<close> and \<open>f\<close> taken in metres). Hence a camera with the same focal length and half
  the sensor diagonal gets twice the result.
\<close>

theorem Get35mmEquivalentFocalLength_formula:
  assumes pp: "pixel_pitch (sensor c) = \<lparr>magnitude = Fin p, units = up\<rparr>"
    and fl: "focal_length (lens c) = \<lparr>magnitude = Fin f, units = uf\<rparr>"
    and pos: "0 < p" "0 < width_pixels (sensor c)" "0 < height_pixels (sensor c)" "0 < f"
    and dims: "lendim up = 1" "lendim uf = 1"
  shows "(let D = sqrt ((p * of_int (width_pixels (sensor c))) * (p * of_int (width_pixels (sensor c))) +
                        (p * of_int (height_pixels (sensor c))) * (p * of_int (height_pixels (sensor c))));
              E = 4327 / 100 / (D * scale up) * (f * scale uf)
          in sensor_diagonal (sensor c) = Inr \<lparr>magnitude = Fin D, units = up\<rparr> \<and>
             Get35mmEquivalentFocalLength c = Inr \<lparr>magnitude = Fin E, units = unit_dim mm\<rparr> \<and>
             (\<forall>c' d' ud'.
                focal_length (lens c') = focal_length (lens c) \<and>
                sensor_diagonal (sensor c') = Inr \<lparr>magnitude = Fin d', units = ud'\<rparr> \<and>
                lendim ud' = 1 \<and> d' * scale ud' = D * scale up / 2 \<longrightarrow>
                Get35mmEquivalentFocalLength c' =
                  Inr \<lparr>magnitude = Fin (2 * E), units = unit_dim mm\<rparr>))"
proof -
  let ?w = "p * of_int (width_pixels (sensor c))"
  let ?h = "p * of_int (height_pixels (sensor c))"
  let ?D = "sqrt (?w * ?w + ?h * ?h)"
  let ?E = "4327 / 100 / (?D * scale up) * (f * scale uf)"
  have w: "0 < ?w" using pos by simp
  have "0 < ?w * ?w + ?h * ?h"
    using mult_pos_pos [OF w w] zero_le_square [of ?h] by linarith
  then have D: "0 < ?D" by simp
  have diag: "sensor_diagonal (sensor c) = Inr \<lparr>magnitude = Fin ?D, units = up\<rparr>"
    using pp by (rule sensor_diagonal_Fin)
  have eq: "Get35mmEquivalentFocalLength c = Inr \<lparr>magnitude = Fin ?E, units = unit_dim mm\<rparr>"
  proof -
    have "lendim uf = lendim up" using dims by simp
    with diag fl D show ?thesis by (rule Get35mmEquivalentFocalLength_of_diagonal)
  qed
  have half: "Get35mmEquivalentFocalLength c' =
                Inr \<lparr>magnitude = Fin (2 * ?E), units = unit_dim mm\<rparr>"
    if h: "focal_length (lens c') = focal_length (lens c) \<and>
           sensor_diagonal (sensor c') = Inr \<lparr>magnitude = Fin d', units = ud'\<rparr> \<and>
           lendim ud' = 1 \<and> d' * scale ud' = ?D * scale up / 2" for c' d' ud'
  proof -
    have dsc: "d' * scale ud' = ?D * scale up / 2" using h by blast
    have "0 < ?D * scale up / 2" using D scale_pos [of up] by simp
    then have "0 < d' * scale ud'" using dsc by simp
    then have d': "0 < d'" using scale_pos [of ud'] by (simp add: zero_less_mult_iff)
    have fl': "focal_length (lens c') = \<lparr>magnitude = Fin f, units = uf\<rparr>"
      using h fl by simp
    have diag': "sensor_diagonal (sensor c') = Inr \<lparr>magnitude = Fin d', units = ud'\<rparr>"
      using h by blast
    have ld': "lendim uf = lendim ud'" using h dims by simp
    have "Get35mmEquivalentFocalLength c' =
            Inr \<lparr>magnitude = Fin (4327 / 100 / (d' * scale ud') * (f * scale uf)),
                 units = unit_dim mm\<rparr>"
      using diag' fl' d' ld' by (rule Get35mmEquivalentFocalLength_of_diagonal)
    moreover have "4327 / 100 / (d' * scale ud') * (f * scale uf) = 2 * ?E"
      unfolding dsc by simp
    ultimately show ?thesis by simp
  qed
  show ?thesis
    unfolding Let_def using diag eq half by blast
qed

text \<open>
  The camera of camera\_test.py: diagonal 25 mm, equivalent 17.308 mm; with a pitch of
  2.5 micron the diagonal is 12.5 mm and the equivalent 34.616 mm.
\<close>

theorem Get35mmEquivalentFocalLength_formula_witness:
  "sensor_diagonal (sensor (test_camera ''rectilinear'')) =
     Inr \<lparr>magnitude = Fin 25000, units = unit_dim micron\<rparr> \<and>
   Get35mmEquivalentFocalLength (test_camera ''rectilinear'') =
     Inr \<lparr>magnitude = Fin (4327 / 250), units = unit_dim mm\<rparr> \<and>
   sensor_diagonal (test_sensor\<lparr>pixel_pitch := smul (Fin (5 / 2)) (unit_quantity micron)\<rparr>) =
     Inr \<lparr>magnitude = Fin 12500, units = unit_dim micron\<rparr> \<and>
   Get35mmEquivalentFocalLength
     ((test_camera ''rectilinear'')
        \<lparr>sensor := test_sensor\<lparr>pixel_pitch := smul (Fin (5 / 2)) (unit_quantity micron)\<rparr>\<rparr>) =
     Inr \<lparr>magnitude = Fin (4327 / 125), units = unit_dim mm\<rparr>"
proof -
  let ?c = "test_camera ''rectilinear''"
  let ?s' = "test_sensor\<lparr>pixel_pitch := smul (Fin (5 / 2)) (unit_quantity micron)\<rparr>"
  let ?c' = "?c\<lparr>sensor := ?s'\<rparr>"
  have t: "sensor_diagonal (sensor ?c) = Inr \<lparr>magnitude = Fin 25000, units = unit_dim micron\<rparr> \<and>
           Get35mmEquivalentFocalLength ?c =
             Inr \<lparr>magnitude = Fin (4327 / 250), units = unit_dim mm\<rparr> \<and>
           (\<forall>c' d' ud'.
                focal_length (lens c') = focal_length (lens ?c) \<and>
                sensor_diagonal (sensor c') = Inr \<lparr>magnitude = Fin d', units = ud'\<rparr> \<and>
                lendim ud' = 1 \<and> d' * scale ud' = 25000 * scale (unit_dim micron) / 2 \<longrightarrow>
                Get35mmEquivalentFocalLength c' =
                  Inr \<lparr>magnitude = Fin (2 * (4327 / 250)), units = unit_dim mm\<rparr>)"
    using Get35mmEquivalentFocalLength_formula [where c = ?c and p = 5
        and up = "unit_dim micron" and f = 10 and uf = "unit_dim mm"]
    by (simp add: test_camera_fields lendim_unit_dim scale_unit_dim test_diagonals Let_def)
  have d': "sensor_diagonal ?s' = Inr \<lparr>magnitude = Fin 12500, units = unit_dim micron\<rparr>"
    using sensor_diagonal_Fin [where s = ?s' and p = "5 / 2" and up = "unit_dim micron"]
    by (simp add: test_sensor_def smul_def unit_quantity_def test_diagonals)
  have pre: "focal_length (lens ?c') = focal_length (lens ?c) \<and>
        sensor_diagonal (sensor ?c') = Inr \<lparr>magnitude = Fin 12500, units = unit_dim micron\<rparr> \<and>
        lendim (unit_dim micron) = 1 \<and>
        12500 * scale (unit_dim micron) = 25000 * scale (unit_dim micron) / 2"
    using d' by (simp add: lendim_unit_dim)
  from t have "\<forall>c' d' ud'.
                focal_length (lens c') = focal_length (lens ?c) \<and>
                sensor_diagonal (sensor c') = Inr \<lparr>magnitude = Fin d', units = ud'\<rparr> \<and>
                lendim ud' = 1 \<and> d' * scale ud' = 25000 * scale (unit_dim micron) / 2 \<longrightarrow>
                Get35mmEquivalentFocalLength c' =
                  Inr \<lparr>magnitude = Fin (2 * (4327 / 250)), units = unit_dim mm\<rparr>"
    by blast
  then have "Get35mmEquivalentFocalLength ?c' =
                  Inr \<lparr>magnitude = Fin (2 * (4327 / 250)), units = unit_dim mm\<rparr>"
    using pre by blast
  then have e': "Get35mmEquivalentFocalLength ?c' =
                  Inr \<lparr>magnitude = Fin (4327 / 125), units = unit_dim mm\<rparr>"
    by simp
  show ?thesis using t d' e' by blast
qed

end
